theory Spec2Isabelle
  imports Complex_Main "HOL-Library.Word"
begin

section \<open>Errors and arrays\<close>

text \<open>
  The module computes with NumPy arrays of floating-point numbers. Two models of the
  numbers are used. Where a property concerns the expression or the branch the code
  computes, the numbers are reals: \<open>np.sqrt\<close>, \<open>np.cos\<close> and \<open>np.sin\<close> are the real
  functions and the literal \<open>1e-6\<close> is the real number \<open>1 / 10 ^ 6\<close>. Where the range of
  float64 decides a property, the same functions are embedded a second time over the type
  \<open>f64\<close> below, in which a result beyond the largest double overflows to an infinity
  and the invalid operations give NaN. Every exception the code can raise is a value of
  \<open>error\<close>. NumPy reports a floating-point division by zero as a warning and an
  infinite value; the model makes that event the value \<open>FloatingPointError\<close>.
\<close>

datatype error =
  IndexError | ValueError | KeyError | TypeError | AssertionError | AttributeError
  | FloatingPointError

definition ebind :: "error + 'a \<Rightarrow> ('a \<Rightarrow> error + 'b) \<Rightarrow> error + 'b" where
  "ebind m f = (case m of Inl e \<Rightarrow> Inl e | Inr v \<Rightarrow> f v)"

text \<open>A two-dimensional array carries its shape, so that an array of shape (0, 3) is
  not confused with one of shape (0, 4). The elements are the list of rows.\<close>

record 'a ndarray =
  nrows :: nat
  ncols :: nat
  elems :: "'a list list"

definition wf_array :: "'a ndarray \<Rightarrow> bool" where
  "wf_array a = (length (elems a) = nrows a \<and> list_all (\<lambda>r. length r = ncols a) (elems a))"

definition eye :: "nat \<Rightarrow> real ndarray" where
  "eye n = \<lparr>nrows = n, ncols = n,
             elems = map (\<lambda>i. map (\<lambda>j. if i = j then 1 else 0) [0..<n]) [0..<n]\<rparr>"

definition zeros :: "nat \<Rightarrow> real list" where
  "zeros n = replicate n 0"

definition getitem :: "'a list \<Rightarrow> nat \<Rightarrow> error + 'a" where
  "getitem xs i = (if i < length xs then Inr (xs ! i) else Inl IndexError)"

definition np_div :: "real \<Rightarrow> real \<Rightarrow> error + real" where
  "np_div x y = (if y = 0 then Inl FloatingPointError else Inr (x / y))"

definition vdot :: "real list \<Rightarrow> real list \<Rightarrow> real" where
  "vdot xs ys = sum_list (map2 (*) xs ys)"

section \<open>Rotation conversion\<close>

definition angleaxis_to_rotation_matrix :: "real list \<Rightarrow> error + real ndarray" where
  "angleaxis_to_rotation_matrix aa =
    (let angle = sqrt (vdot aa aa) in
     if angle > 1 / 10 ^ 6 then
       (let c = cos angle; s = sin angle in
        ebind (getitem aa 0) (\<lambda>a0. ebind (np_div a0 angle) (\<lambda>u0.
        ebind (getitem aa 1) (\<lambda>a1. ebind (np_div a1 angle) (\<lambda>u1.
        ebind (getitem aa 2) (\<lambda>a2. ebind (np_div a2 angle) (\<lambda>u2.
        Inr \<lparr>nrows = 3, ncols = 3, elems =
          [[c + u0 * u0 * (1 - c), u0 * u1 * (1 - c) - u2 * s, u0 * u2 * (1 - c) + u1 * s],
           [u1 * u0 * (1 - c) + u2 * s, c + u1 * u1 * (1 - c), u1 * u2 * (1 - c) - u0 * s],
           [u2 * u0 * (1 - c) - u1 * s, u2 * u1 * (1 - c) + u0 * s, c + u2 * u2 * (1 - c)]]\<rparr>)))))))
     else Inr (eye 3))"

section \<open>Array operations\<close>

definition transpose_nd :: "'a ndarray \<Rightarrow> 'a ndarray" where
  "transpose_nd a = \<lparr>nrows = ncols a, ncols = nrows a,
      elems = map (\<lambda>j. map (\<lambda>r. r ! j) (elems a)) [0..<ncols a]\<rparr>"

text \<open>\<open>a.dot(b)\<close> for two-dimensional arrays: the matrix product, a ValueError when
  the inner dimensions differ.\<close>

definition dot_nd :: "real ndarray \<Rightarrow> real ndarray \<Rightarrow> error + real ndarray" where
  "dot_nd a b =
    (if ncols a = nrows b then
       Inr \<lparr>nrows = nrows a, ncols = ncols b,
            elems = map (\<lambda>r. map (\<lambda>j. \<Sum>k\<leftarrow>[0..<ncols a]. r ! k * (elems b ! k ! j))
                                   [0..<ncols b])
                        (elems a)\<rparr>
     else Inl ValueError)"

text \<open>\<open>np.empty((n, m))\<close>: a new array whose contents are unspecified.\<close>

definition np_empty :: "nat \<Rightarrow> nat \<Rightarrow> 'a ndarray" where
  "np_empty n m = \<lparr>nrows = n, ncols = m, elems = replicate n (replicate m undefined)\<rparr>"

text \<open>\<open>a[:, lo:hi] = src\<close>: the slice is clipped to the columns \<open>a\<close> has, and \<open>src\<close> is
  broadcast into it (an axis of length 1 is repeated); a ValueError when the shapes do
  not fit.\<close>

definition setitem_cols ::
  "'a ndarray \<Rightarrow> nat \<Rightarrow> nat \<Rightarrow> 'a ndarray \<Rightarrow> error + 'a ndarray" where
  "setitem_cols a lo hi src =
    (let hi' = min hi (ncols a); lo' = min lo hi'; k = hi' - lo' in
     if (nrows src = nrows a \<or> nrows src = 1) \<and> (ncols src = k \<or> ncols src = 1) then
       Inr (a\<lparr>elems :=
         map (\<lambda>i. map (\<lambda>j. if lo' \<le> j \<and> j < hi'
                            then elems src ! (if nrows src = 1 then 0 else i)
                                           ! (if ncols src = 1 then 0 else j - lo')
                            else elems a ! i ! j)
                       [0..<ncols a])
             [0..<nrows a]\<rparr>)
     else Inl ValueError)"

text \<open>\<open>a[:, j] = v\<close>: an IndexError when the array has no column \<open>j\<close>.\<close>

definition setitem_col :: "'a ndarray \<Rightarrow> nat \<Rightarrow> 'a \<Rightarrow> error + 'a ndarray" where
  "setitem_col a j v =
    (if j < ncols a then Inr (a\<lparr>elems := map (\<lambda>r. r[j := v]) (elems a)\<rparr>)
     else Inl IndexError)"

text \<open>\<open>a[0:k]\<close>: the first \<open>k\<close> rows.\<close>

definition rows_upto :: "'a ndarray \<Rightarrow> nat \<Rightarrow> 'a ndarray" where
  "rows_upto a k = \<lparr>nrows = min k (nrows a), ncols = ncols a, elems = take k (elems a)\<rparr>"

text \<open>\<open>K[i, j] = v\<close> for indices inside the array.\<close>

definition setitem2 :: "'a ndarray \<Rightarrow> nat \<Rightarrow> nat \<Rightarrow> 'a \<Rightarrow> 'a ndarray" where
  "setitem2 a i j v = a\<lparr>elems := (elems a)[i := (elems a ! i)[j := v]]\<rparr>"

definition map_nd :: "('a \<Rightarrow> 'b) \<Rightarrow> 'a ndarray \<Rightarrow> 'b ndarray" where
  "map_nd f a = \<lparr>nrows = nrows a, ncols = ncols a, elems = map (map f) (elems a)\<rparr>"

text \<open>\<open>a - t\<close> for a two-dimensional \<open>a\<close> and a one-dimensional \<open>t\<close>: \<open>t\<close> is subtracted
  from every row; a \<open>t\<close> of one element is subtracted from every entry, and an \<open>a\<close> of
  one column is repeated along \<open>t\<close>.\<close>

definition sub_row :: "real ndarray \<Rightarrow> real list \<Rightarrow> error + real ndarray" where
  "sub_row a t =
    (if length t = ncols a then
       Inr (a\<lparr>elems := map (\<lambda>r. map2 (-) r t) (elems a)\<rparr>)
     else if length t = 1 then
       Inr (a\<lparr>elems := map (map (\<lambda>x. x - t ! 0)) (elems a)\<rparr>)
     else if ncols a = 1 then
       Inr \<lparr>nrows = nrows a, ncols = length t,
            elems = map (\<lambda>r. map (\<lambda>y. r ! 0 - y) t) (elems a)\<rparr>
     else Inl ValueError)"

text \<open>\<open>np.vstack([a, b])\<close>: the rows of \<open>a\<close>, then the rows of \<open>b\<close>.\<close>

definition vstack :: "'a ndarray \<Rightarrow> 'a ndarray \<Rightarrow> error + 'a ndarray" where
  "vstack a b =
    (if ncols a = ncols b then
       Inr \<lparr>nrows = nrows a + nrows b, ncols = ncols a, elems = elems a @ elems b\<rparr>
     else Inl ValueError)"

text \<open>\<open>np.uint8(x)\<close>: the fraction is dropped and the integer is taken modulo 256. A
  value outside the range of a 32-bit integer has no defined conversion in C; the x86-64
  builds of NumPy give 0.\<close>

definition np_uint8 :: "real \<Rightarrow> 8 word" where
  "np_uint8 x =
    (let n = (if 0 \<le> x then \<lfloor>x\<rfloor> else \<lceil>x\<rceil>) in
     if - (2 ^ 31) \<le> n \<and> n < 2 ^ 31 then word_of_int n else 0)"

section \<open>Point transform\<close>

text \<open>
  The function fills a scratch array in place, so it is modelled on a store of arrays:
  an address is an index into the list of allocated arrays, and a new array gets the
  next free address. Transposes and slices are views: they are computed from the array
  they look at and are not stored. The function returns its result and the store it
  leaves.
\<close>

type_synonym addr = nat
type_synonym heap = "real ndarray list"

definition alloc :: "heap \<Rightarrow> real ndarray \<Rightarrow> addr \<times> heap" where
  "alloc h a = (length h, h @ [a])"

definition transform_pointcloud_points_h ::
  "heap \<Rightarrow> addr \<Rightarrow> addr \<Rightarrow> error + (real ndarray \<times> heap)" where
  "transform_pointcloud_points_h h points T =
    (let (tmp, h1) = alloc h (np_empty (nrows (h ! points)) (ncols (h ! points) + 1)) in
     ebind (setitem_cols (h1 ! tmp) 0 3 (h1 ! points)) (\<lambda>tmp1.
     let h2 = h1[tmp := tmp1] in
     ebind (setitem_col (h2 ! tmp) 3 1) (\<lambda>tmp2.
     let h3 = h2[tmp := tmp2] in
     ebind (dot_nd (h3 ! T) (transpose_nd (h3 ! tmp))) (\<lambda>prod.
     let (res, h4) = alloc h3 prod in
     Inr (transpose_nd (rows_upto (h4 ! res) 3), h4)))))"

text \<open>The function on values: the two arguments are the only arrays of the store.\<close>

definition transform_pointcloud_points ::
  "real ndarray \<Rightarrow> real ndarray \<Rightarrow> error + real ndarray" where
  "transform_pointcloud_points points T =
    ebind (transform_pointcloud_points_h [points, T] 0 1) (\<lambda>(out, h'). Inr out)"

section \<open>Camera glyph and point cloud actors\<close>

text \<open>The rendering toolkit is a display sink: an actor is the geometry handed to it.\<close>

record camera_actor =
  cam_vertices :: "real list list"
  cam_lines :: "nat list list"
  cam_polys :: "nat list list"

definition cam_points :: "real ndarray" where
  "cam_points = \<lparr>nrows = 11, ncols = 3, elems =
     [[0, 0, 0],
      [-1, -1, 1.5],
      [1, -1, 1.5],
      [1, 1, 1.5],
      [-1, 1, 1.5],
      [-0.5, 1, 1.5],
      [0.5, 1, 1.5],
      [0, 1.2, 1.5],
      [1, -0.5, 1.5],
      [1, 0.5, 1.5],
      [1.2, 0, 1.5]]\<rparr>"

definition create_camera_actor :: "real ndarray \<Rightarrow> real list \<Rightarrow> error + camera_actor" where
  "create_camera_actor R t =
    ebind (sub_row (map_nd (\<lambda>x. 0.25 * x) cam_points) t) (\<lambda>shifted.
    ebind (dot_nd shifted R) (\<lambda>cam_points'.
    if ncols cam_points' = 3 then
      Inr \<lparr>cam_vertices = elems cam_points',
           cam_lines = [[1, 2, 3, 4, 1], [1, 0, 2], [3, 0, 4], [8, 10, 9]],
           cam_polys = [[5, 6, 7]]\<rparr>
    else Inl TypeError))"

record cloud_actor =
  cloud_vertices :: "real list list"
  cloud_colors :: "8 word list list option"
  cloud_cells :: "nat list list"

definition create_pointcloud_actor ::
  "real ndarray \<Rightarrow> 8 word ndarray option \<Rightarrow> error + cloud_actor" where
  "create_pointcloud_actor points colors =
    (if 0 < nrows points \<and> ncols points \<noteq> 3 then Inl TypeError
     else
       ebind (case colors of
                None \<Rightarrow> Inr None
              | Some c \<Rightarrow>
                  if 0 < nrows points \<and> (nrows c < nrows points \<or> ncols c < 3)
                  then Inl IndexError
                  else Inr (Some (map (take 3) (take (nrows points) (elems c))))) (\<lambda>vcolors.
       Inr \<lparr>cloud_vertices = elems points, cloud_colors = vcolors,
            cloud_cells = map (\<lambda>i. [i]) [0..<nrows points]\<rparr>))"

section \<open>Scene composer\<close>

text \<open>
  The per-pixel unprojection (\<open>compute_point_cloud_from_depthmap\<close>) forwards to a
  compiled extension that is not part of the sources. The composers take it as the
  parameter \<open>kernel\<close>: from a depth map, the camera matrix, a rotation, a translation,
  optional normals and an optional colour image of three channels it returns the points
  and, when it has them, the colours (the dictionary keys \<open>points\<close> and \<open>colors\<close>), or
  raises.
\<close>

record pointcloud =
  pc_points :: "real ndarray"
  pc_colors :: "8 word ndarray option"

type_synonym kernel =
  "real ndarray \<Rightarrow> real ndarray \<Rightarrow> real ndarray \<Rightarrow> real list \<Rightarrow>
   real ndarray list option \<Rightarrow> 8 word ndarray list option \<Rightarrow> error + pointcloud"

definition default_intrinsics :: "real list" where
  "default_intrinsics = [0.89115971, 1.18821287, 0.5, 0.5]"

text \<open>Both composers build the camera matrix from the normalised intrinsics and the
  image size with the same four assignments into \<open>np.eye(3)\<close>.\<close>

definition camera_matrix :: "real list \<Rightarrow> nat \<Rightarrow> nat \<Rightarrow> error + real ndarray" where
  "camera_matrix intrinsics h w =
    (let K = eye 3 in
     ebind (getitem intrinsics 0) (\<lambda>i0. let K = setitem2 K 0 0 (i0 * real w) in
     ebind (getitem intrinsics 1) (\<lambda>i1. let K = setitem2 K 1 1 (i1 * real h) in
     ebind (getitem intrinsics 2) (\<lambda>i2. let K = setitem2 K 0 2 (i2 * real w) in
     ebind (getitem intrinsics 3) (\<lambda>i3. let K = setitem2 K 1 2 (i3 * real h) in
     Inr K)))))"

text \<open>The scene handed to the renderer: the point cloud actor and the camera glyphs,
  in the order they are added.\<close>

record scene =
  scene_cloud :: cloud_actor
  scene_cameras :: "camera_actor list"

subsection \<open>Several depth maps\<close>

text \<open>An entry of the dictionary \<open>depths\<close>: the depth map and, when the key \<open>color\<close>
  is present, a colour of one dimension or a colour image.\<close>

datatype color_spec = Uniform "real list" | PerPixel "real ndarray list"

record vis =
  vis_depth :: "real ndarray"
  vis_color :: "color_spec option"

definition full :: "nat \<Rightarrow> nat \<Rightarrow> 'a \<Rightarrow> 'a ndarray" where
  "full h w v = \<lparr>nrows = h, ncols = w, elems = replicate h (replicate w v)\<rparr>"

text \<open>The colour image of an entry: \<open>np.ones([3, h, w])\<close> scaled per channel by a
  one-dimensional colour, or the colour image itself, or 255 everywhere; then cast to
  bytes.\<close>

definition entry_image :: "vis \<Rightarrow> error + 8 word ndarray list" where
  "entry_image v =
    (let h = nrows (vis_depth v); w = ncols (vis_depth v) in
     ebind (case vis_color v of
              Some (Uniform c) \<Rightarrow>
                ebind (getitem c 0) (\<lambda>c0.
                ebind (getitem c 1) (\<lambda>c1.
                ebind (getitem c 2) (\<lambda>c2.
                Inr [full h w (1 * c0), full h w (1 * c1), full h w (1 * c2)])))
            | Some (PerPixel im) \<Rightarrow> if length im = 3 then Inr im else Inl AssertionError
            | None \<Rightarrow> Inr (replicate 3 (full h w (1 * 255)))) (\<lambda>img.
     Inr (map (map_nd np_uint8) img)))"

text \<open>The unprojection of one entry, under the identity pose \<open>R\<close>, \<open>t\<close> of the
  composer.\<close>

definition unproject_entry ::
  "kernel \<Rightarrow> real list \<Rightarrow> real ndarray \<Rightarrow> real list \<Rightarrow> vis \<Rightarrow> error + pointcloud" where
  "unproject_entry k intrinsics R t v =
    ebind (camera_matrix intrinsics (nrows (vis_depth v)) (ncols (vis_depth v))) (\<lambda>K.
    ebind (entry_image v) (\<lambda>img.
    k (vis_depth v) K R t None (Some img)))"

text \<open>One turn of the loop over \<open>depths.items()\<close>. The running point cloud is \<open>None\<close>
  until the first entry is unprojected; from the second entry on the new arrays are
  stacked on top of the running ones, and a result without colours is a KeyError.\<close>

definition depths_step ::
  "kernel \<Rightarrow> real list \<Rightarrow> real ndarray \<Rightarrow> real list \<Rightarrow> pointcloud option \<Rightarrow> vis \<Rightarrow>
   error + pointcloud option" where
  "depths_step k intrinsics R t pointcloud v =
    (case pointcloud of
       None \<Rightarrow> ebind (unproject_entry k intrinsics R t v) (\<lambda>pc. Inr (Some pc))
     | Some pc \<Rightarrow>
         ebind (unproject_entry k intrinsics R t v) (\<lambda>pointcloud_cur.
         ebind (vstack (pc_points pointcloud_cur) (pc_points pc)) (\<lambda>points.
         ebind (case (pc_colors pointcloud_cur, pc_colors pc) of
                  (Some cur, Some acc) \<Rightarrow> vstack cur acc
                | _ \<Rightarrow> Inl KeyError) (\<lambda>colors.
         Inr (Some (pc\<lparr>pc_points := points, pc_colors := Some colors\<rparr>))))))"

fun depths_loop ::
  "kernel \<Rightarrow> real list \<Rightarrow> real ndarray \<Rightarrow> real list \<Rightarrow> pointcloud option \<Rightarrow>
   ('k \<times> vis) list \<Rightarrow> error + pointcloud option" where
  "depths_loop k intrinsics R t pointcloud [] = Inr pointcloud"
| "depths_loop k intrinsics R t pointcloud ((key, v) # rest) =
    ebind (depths_step k intrinsics R t pointcloud v) (\<lambda>pointcloud'.
    depths_loop k intrinsics R t pointcloud' rest)"

text \<open>The dictionary \<open>depths\<close> is the list of its items in iteration order. With no
  entry the point cloud stays \<open>None\<close> and building the actor fails.\<close>

definition visualize_depths ::
  "kernel \<Rightarrow> ('k \<times> vis) list \<Rightarrow> real list option \<Rightarrow> error + scene" where
  "visualize_depths k depths intrinsics =
    (let intrinsics = (case intrinsics of None \<Rightarrow> default_intrinsics | Some i \<Rightarrow> i);
         R = eye 3;
         t = zeros 3 in
     ebind (depths_loop k intrinsics R t None depths) (\<lambda>pointcloud.
     case pointcloud of
       None \<Rightarrow> Inl AttributeError
     | Some pc \<Rightarrow>
         ebind (create_pointcloud_actor (pc_points pc) (pc_colors pc)) (\<lambda>pointcloud_actor.
         ebind (create_camera_actor R t) (\<lambda>cam1_actor.
         Inr \<lparr>scene_cloud = pointcloud_actor, scene_cameras = [cam1_actor]\<rparr>))))"

subsection \<open>One prediction\<close>

text \<open>
  The depth map is a two-dimensional array, the rotation and the translation are
  one-dimensional. \<open>squeeze\<close> leaves such arrays as they are unless an axis has length 1;
  a depth map with one row or one column loses that axis, and reading its height and
  width is then an IndexError. The image is rescaled from [-0.5, 0.5] to bytes.
\<close>

definition visualize_prediction ::
  "kernel \<Rightarrow> real ndarray \<Rightarrow> real list option \<Rightarrow> real ndarray list option \<Rightarrow>
   real list option \<Rightarrow> real list option \<Rightarrow> real ndarray list option \<Rightarrow> error + scene" where
  "visualize_prediction k depth intrinsics normals rotation translation image_in =
    (if nrows depth = 1 \<or> ncols depth = 1 then Inl IndexError
     else
       let w = ncols depth;
           h = nrows depth;
           intrinsics = (case intrinsics of None \<Rightarrow> default_intrinsics | Some i \<Rightarrow> i) in
       ebind (camera_matrix intrinsics h w) (\<lambda>K.
       let R1 = eye 3;
           t1 = zeros 3 in
       ebind (case (rotation, translation) of
                (Some r, Some t) \<Rightarrow>
                  ebind (angleaxis_to_rotation_matrix r) (\<lambda>R2. Inr (R2, t))
              | _ \<Rightarrow> Inr (eye 3, zeros 3)) (\<lambda>(R2, t2).
       let n = normals;
           img = map_option (map (map_nd (\<lambda>x. np_uint8 ((x + 0.5) * 255)))) image_in in
       ebind (k depth K R1 t1 n img) (\<lambda>pointcloud.
       ebind (create_pointcloud_actor (pc_points pointcloud) (pc_colors pointcloud))
         (\<lambda>pointcloud_actor.
       ebind (create_camera_actor R1 t1) (\<lambda>cam1_actor.
       ebind (create_camera_actor R2 t2) (\<lambda>cam2_actor.
       Inr \<lparr>scene_cloud = pointcloud_actor,
            scene_cameras = [cam1_actor, cam2_actor]\<rparr>)))))))"

section \<open>The range of float64\<close>

text \<open>
  A float64 value is a finite number, an infinity or NaN. A finite result is kept
  exact (rounding to 53 bits is not modelled, nor are signed zeros and subnormals); a
  result whose magnitude exceeds the largest double, \<open>(2 ^ 53 - 1) * 2 ^ 971\<close>,
  overflows to the infinity of its sign. The invalid operations give NaN: the
  difference of two infinities, zero times an infinity, the quotient of two
  infinities, the square root of a negative number, the cosine and the sine of an
  infinity. A comparison with NaN is false. As for the reals, a division by zero is
  the value \<open>FloatingPointError\<close>.
\<close>

datatype f64 = Fin real | PInf | NInf | NaN

definition f64_max :: real where
  "f64_max = (2 ^ 53 - 1) * 2 ^ 971"

definition f64_of :: "real \<Rightarrow> f64" where
  "f64_of x = (if f64_max < x then PInf else if x < - f64_max then NInf else Fin x)"

fun f64_neg :: "f64 \<Rightarrow> f64" where
  "f64_neg (Fin x) = Fin (- x)"
| "f64_neg PInf = NInf"
| "f64_neg NInf = PInf"
| "f64_neg NaN = NaN"

fun f64_add :: "f64 \<Rightarrow> f64 \<Rightarrow> f64" where
  "f64_add (Fin x) (Fin y) = f64_of (x + y)"
| "f64_add NaN b = NaN"
| "f64_add a NaN = NaN"
| "f64_add PInf NInf = NaN"
| "f64_add NInf PInf = NaN"
| "f64_add PInf b = PInf"
| "f64_add a PInf = PInf"
| "f64_add NInf b = NInf"
| "f64_add a NInf = NInf"

definition f64_sub :: "f64 \<Rightarrow> f64 \<Rightarrow> f64" where
  "f64_sub a b = f64_add a (f64_neg b)"

fun f64_negative :: "f64 \<Rightarrow> bool" where
  "f64_negative (Fin x) = (x < 0)"
| "f64_negative NInf = True"
| "f64_negative a = False"

fun f64_mul :: "f64 \<Rightarrow> f64 \<Rightarrow> f64" where
  "f64_mul (Fin x) (Fin y) = f64_of (x * y)"
| "f64_mul NaN b = NaN"
| "f64_mul a NaN = NaN"
| "f64_mul a b =
     (if a = Fin 0 \<or> b = Fin 0 then NaN
      else if f64_negative a \<noteq> f64_negative b then NInf else PInf)"

fun f64_quot :: "f64 \<Rightarrow> f64 \<Rightarrow> f64" where
  "f64_quot (Fin x) (Fin y) = f64_of (x / y)"
| "f64_quot NaN b = NaN"
| "f64_quot a NaN = NaN"
| "f64_quot (Fin x) b = Fin 0"
| "f64_quot a (Fin y) = (if f64_negative a \<noteq> (y < 0) then NInf else PInf)"
| "f64_quot a b = NaN"

definition f64_div :: "f64 \<Rightarrow> f64 \<Rightarrow> error + f64" where
  "f64_div a b = (if b = Fin 0 then Inl FloatingPointError else Inr (f64_quot a b))"

fun f64_sqrt :: "f64 \<Rightarrow> f64" where
  "f64_sqrt (Fin x) = (if x < 0 then NaN else Fin (sqrt x))"
| "f64_sqrt PInf = PInf"
| "f64_sqrt a = NaN"

fun f64_cos :: "f64 \<Rightarrow> f64" where
  "f64_cos (Fin x) = Fin (cos x)"
| "f64_cos a = NaN"

fun f64_sin :: "f64 \<Rightarrow> f64" where
  "f64_sin (Fin x) = Fin (sin x)"
| "f64_sin a = NaN"

fun f64_gt :: "f64 \<Rightarrow> f64 \<Rightarrow> bool" where
  "f64_gt (Fin x) (Fin y) = (x > y)"
| "f64_gt NaN b = False"
| "f64_gt a NaN = False"
| "f64_gt PInf PInf = False"
| "f64_gt PInf b = True"
| "f64_gt a PInf = False"
| "f64_gt NInf b = False"
| "f64_gt a NInf = True"

text \<open>\<open>aa.dot(aa)\<close> and the rotation conversion over \<open>f64\<close>: the products are
  accumulated in index order, and the statements are those of
  \<open>angleaxis_to_rotation_matrix\<close>, with Python's precedence of the operators.\<close>

definition vdot_f64 :: "f64 list \<Rightarrow> f64 list \<Rightarrow> f64" where
  "vdot_f64 xs ys = foldl (\<lambda>acc (x, y). f64_add acc (f64_mul x y)) (Fin 0) (zip xs ys)"

definition angleaxis_to_rotation_matrix_f64 :: "f64 list \<Rightarrow> error + f64 ndarray" where
  "angleaxis_to_rotation_matrix_f64 aa =
    (let angle = f64_sqrt (vdot_f64 aa aa) in
     if f64_gt angle (Fin (1 / 10 ^ 6)) then
       (let c = f64_cos angle; s = f64_sin angle in
        ebind (getitem aa 0) (\<lambda>a0. ebind (f64_div a0 angle) (\<lambda>u0.
        ebind (getitem aa 1) (\<lambda>a1. ebind (f64_div a1 angle) (\<lambda>u1.
        ebind (getitem aa 2) (\<lambda>a2. ebind (f64_div a2 angle) (\<lambda>u2.
        Inr \<lparr>nrows = 3, ncols = 3, elems =
          [[f64_add c (f64_mul (f64_mul u0 u0) (f64_sub (Fin 1) c)),
            f64_sub (f64_mul (f64_mul u0 u1) (f64_sub (Fin 1) c)) (f64_mul u2 s),
            f64_add (f64_mul (f64_mul u0 u2) (f64_sub (Fin 1) c)) (f64_mul u1 s)],
           [f64_add (f64_mul (f64_mul u1 u0) (f64_sub (Fin 1) c)) (f64_mul u2 s),
            f64_add c (f64_mul (f64_mul u1 u1) (f64_sub (Fin 1) c)),
            f64_sub (f64_mul (f64_mul u1 u2) (f64_sub (Fin 1) c)) (f64_mul u0 s)],
           [f64_sub (f64_mul (f64_mul u2 u0) (f64_sub (Fin 1) c)) (f64_mul u1 s),
            f64_add (f64_mul (f64_mul u2 u1) (f64_sub (Fin 1) c)) (f64_mul u0 s),
            f64_add c (f64_mul (f64_mul u2 u2) (f64_sub (Fin 1) c))]]\<rparr>)))))))
     else Inr (map_nd Fin (eye 3)))"



section \<open>Definitions of the specification\<close>

text \<open>The determinant of a 3 by 3 array, the even permutations of (0, 1, 2), and the
  component form of the rotation matrix: \<open>sg\<close> is the sign in front of \<open>u[k] * s\<close> when
  \<open>(i, j, k)\<close> is an even permutation, and \<open>- sg\<close> is the sign otherwise. \<open>rodrigues\<close>
  names the matrix the code builds from \<open>c\<close>, \<open>s\<close> and the unit axis.\<close>

definition det3 :: "real ndarray \<Rightarrow> real" where
  "det3 m = (let e = (\<lambda>i j. elems m ! i ! j) in
     e 0 0 * (e 1 1 * e 2 2 - e 1 2 * e 2 1)
   - e 0 1 * (e 1 0 * e 2 2 - e 1 2 * e 2 0)
   + e 0 2 * (e 1 0 * e 2 1 - e 1 1 * e 2 0))"

definition even_perm3 :: "nat \<Rightarrow> nat \<Rightarrow> nat \<Rightarrow> bool" where
  "even_perm3 i j k = ((i, j, k) = (0, 1, 2) \<or> (i, j, k) = (1, 2, 0) \<or> (i, j, k) = (2, 0, 1))"

definition component_form :: "real \<Rightarrow> real list \<Rightarrow> real ndarray" where
  "component_form sg aa =
    (let angle = sqrt (vdot aa aa); c = cos angle; s = sin angle;
         u = map (\<lambda>x. x / angle) aa in
     \<lparr>nrows = 3, ncols = 3, elems =
        map (\<lambda>i. map (\<lambda>j. if i = j then c + (u ! i)\<^sup>2 * (1 - c)
                           else let k = 3 - i - j in
                             u ! i * u ! j * (1 - c)
                             + (if even_perm3 i j k then sg else - sg) * (u ! k * s))
                      [0..<3])
            [0..<3]\<rparr>)"

definition rodrigues :: "real \<Rightarrow> real \<Rightarrow> real \<Rightarrow> real \<Rightarrow> real \<Rightarrow> real ndarray" where
  "rodrigues c s u0 u1 u2 = \<lparr>nrows = 3, ncols = 3, elems =
          [[c + u0 * u0 * (1 - c), u0 * u1 * (1 - c) - u2 * s, u0 * u2 * (1 - c) + u1 * s],
           [u1 * u0 * (1 - c) + u2 * s, c + u1 * u1 * (1 - c), u1 * u2 * (1 - c) - u0 * s],
           [u2 * u0 * (1 - c) - u1 * s, u2 * u1 * (1 - c) + u0 * s, c + u2 * u2 * (1 - c)]]\<rparr>"

text \<open>The point transform in the words of the specification, point by point: the point
  is extended by the homogeneous coordinate 1, multiplied from the left by \<open>T\<close>, and the
  homogeneous coordinate of the product is dropped. \<open>with_last v P\<close> is \<open>P\<close> with one more
  column that holds \<open>v\<close>.\<close>

definition homogeneous_transform :: "real ndarray \<Rightarrow> real ndarray \<Rightarrow> real ndarray" where
  "homogeneous_transform points T =
    \<lparr>nrows = nrows points, ncols = 3,
     elems = map (\<lambda>p. take 3 (map (\<lambda>row. vdot row (p @ [1])) (elems T))) (elems points)\<rparr>"

definition with_last :: "'a \<Rightarrow> 'a ndarray \<Rightarrow> 'a ndarray" where
  "with_last v P = \<lparr>nrows = nrows P, ncols = ncols P + 1, elems = map (\<lambda>p. p @ [v]) (elems P)\<rparr>"

text \<open>The world position of a local glyph vertex \<open>P\<close> as a row vector:
  \<open>(0.25 P - t) R\<close>.\<close>

definition glyph_vertex :: "real ndarray \<Rightarrow> real list \<Rightarrow> real list \<Rightarrow> real list" where
  "glyph_vertex R t P =
     map (\<lambda>j. \<Sum>k\<leftarrow>[0..<3]. (0.25 * P ! k - t ! k) * (elems R ! k ! j)) [0..<3]"

text \<open>Concrete data: two points, a rigid transform (a quarter turn about the z axis,
  then a shift by (1, 2, 3)) and its inverse.\<close>

definition example_points :: "real ndarray" where
  "example_points = \<lparr>nrows = 2, ncols = 3, elems = [[1, 2, 3], [4, 5, 6]]\<rparr>"

definition example_T :: "real ndarray" where
  "example_T = \<lparr>nrows = 4, ncols = 4,
     elems = [[0, -1, 0, 1], [1, 0, 0, 2], [0, 0, 1, 3], [0, 0, 0, 1]]\<rparr>"


text \<open>Modelled from the spec: the unprojection kernel (the compiled extension behind
  \<open>compute_point_cloud_from_depthmap\<close>) is missing from the sources. This is the
  kernel of the specification's boundary contract: pixels are scanned row by row, a
  pixel with a positive depth \<open>d\<close> gives the camera point
  \<open>((col - cx) d / fx, (row - cy) d / fy, d)\<close>, the pose is applied as for the camera
  glyph, \<open>(p - t) R\<close>, and the colour of a point is the byte triple of its pixel. It
  is used as the concrete kernel of the witnesses only; the theorems about the
  composers hold for every kernel.
\<close>

definition unproject_spec :: kernel where
  "unproject_spec depth K R t normals colors =
    (let fx = elems K ! 0 ! 0; fy = elems K ! 1 ! 1;
         cx = elems K ! 0 ! 2; cy = elems K ! 1 ! 2;
         pixels = filter (\<lambda>(r, c). 0 < elems depth ! r ! c)
                    (List.product [0..<nrows depth] [0..<ncols depth]);
         points = map (\<lambda>(r, c).
                    let d = elems depth ! r ! c;
                        cam = [(real c - cx) * d / fx, (real r - cy) * d / fy, d]
                    in map (\<lambda>j. \<Sum>k\<leftarrow>[0..<3]. (cam ! k - t ! k) * (elems R ! k ! j)) [0..<3])
                  pixels
     in Inr \<lparr>pc_points = \<lparr>nrows = length pixels, ncols = 3, elems = points\<rparr>,
             pc_colors = map_option (\<lambda>img.
               \<lparr>nrows = length pixels, ncols = 3,
                elems = map (\<lambda>(r, c). map (\<lambda>ch. elems ch ! r ! c) img) pixels\<rparr>) colors\<rparr>)"

text \<open>Concrete inputs: a depth map of one pixel with a uniform colour, a dictionary of
  two such maps, a flat depth map of two rows and two columns, and the four points the
  kernel above unprojects from it under the intrinsics (1, 1, 1/2, 1/2).\<close>

definition pixel :: "real \<Rightarrow> real list \<Rightarrow> vis" where
  "pixel d c = \<lparr>vis_depth = \<lparr>nrows = 1, ncols = 1, elems = [[d]]\<rparr>, vis_color = Some (Uniform c)\<rparr>"

definition two_pixels :: "(string \<times> vis) list" where
  "two_pixels = [(''first'', pixel 2 [255, 0, 0]), (''second'', pixel 4 [0, 255, 0])]"

definition flat_depth :: "real ndarray" where
  "flat_depth = \<lparr>nrows = 2, ncols = 2, elems = [[1, 1], [1, 1]]\<rparr>"

definition flat_points :: "real ndarray" where
  "flat_points = \<lparr>nrows = 4, ncols = 3,
     elems = [[-1/2, -1/2, 1], [0, -1/2, 1], [-1/2, 0, 1], [0, 0, 1]]\<rparr>"

text \<open>The finite values of an \<open>f64\<close> array, when all its entries are finite, and
  what it is for such an array to be a rotation. An array with an infinity or a NaN is
  no rotation, under any tolerance.\<close>

definition f64_values :: "f64 ndarray \<Rightarrow> real ndarray option" where
  "f64_values a =
    (if list_all (list_all (\<lambda>v. case v of Fin x \<Rightarrow> True | _ \<Rightarrow> False)) (elems a)
     then Some (map_nd (\<lambda>v. case v of Fin x \<Rightarrow> x | _ \<Rightarrow> 0) a) else None)"

definition is_rotation_f64 :: "f64 ndarray \<Rightarrow> bool" where
  "is_rotation_f64 a =
    (case f64_values a of
       None \<Rightarrow> False
     | Some R \<Rightarrow> dot_nd (transpose_nd R) R = Inr (eye 3) \<and> det3 R = 1)"



text \<open>Concrete inputs at the edge of the range: an axis-angle vector of norm
  \<open>2 ^ 600\<close>, and the point \<open>(2 ^ 1023, 0, 0)\<close> with the transform that doubles the
  first coordinate and its inverse.\<close>

definition huge :: real where
  "huge = 2 ^ 600"

definition big :: real where
  "big = 2 ^ 1023"




section \<open>Basic facts\<close>

lemma ebind_Inl [simp]: "ebind (Inl e) f = Inl e"
  by (simp add: ebind_def)

lemma ebind_Inr [simp]: "ebind (Inr v) f = f v"
  by (simp add: ebind_def)

lemma upt_3: "[0..<3] = [0, 1, 2]"
  by (simp add: upt_rec)

lemma upt_4: "[0..<4] = [0, 1, 2, 3]"
  by (simp add: upt_rec)

lemma eye_3: "eye 3 = \<lparr>nrows = 3, ncols = 3, elems = [[1, 0, 0], [0, 1, 0], [0, 0, 1]]\<rparr>"
  by (simp add: eye_def upt_3)

lemma length_3_cases: "length xs = 3 \<Longrightarrow> \<exists>x y z. xs = [x, y, z]"
  by (cases xs; cases "tl xs"; cases "tl (tl xs)") auto

section \<open>Rotation conversion: proofs\<close>

lemma vdot_3: "vdot [x, y, z] [x, y, z] = x * x + y * y + z * z"
  by (simp add: vdot_def)

lemma angleaxis_large:
  assumes "1 / 10 ^ 6 < sqrt (vdot [x, y, z] [x, y, z])"
  defines "n \<equiv> sqrt (vdot [x, y, z] [x, y, z])"
  shows "angleaxis_to_rotation_matrix [x, y, z] = Inr (rodrigues (cos n) (sin n) (x / n) (y / n) (z / n))"
proof -
  have "n \<noteq> 0" using assms by auto
  then show ?thesis using assms(1)
    unfolding angleaxis_to_rotation_matrix_def n_def [symmetric]
    by (simp add: Let_def getitem_def np_div_def rodrigues_def)
qed

lemma angleaxis_small:
  assumes "\<not> 1 / 10 ^ 6 < sqrt (vdot aa aa)"
  shows "angleaxis_to_rotation_matrix aa = Inr (eye 3)"
  using assms by (simp add: angleaxis_to_rotation_matrix_def Let_def)

lemma unit_axis:
  fixes x y z :: real
  assumes "0 < sqrt (x * x + y * y + z * z)"
  defines "n \<equiv> sqrt (x * x + y * y + z * z)"
  shows "(x / n) * (x / n) + (y / n) * (y / n) + (z / n) * (z / n) = 1"
proof -
  have nn: "x * x + y * y + z * z = n * n"
    unfolding n_def by (simp add: add_nonneg_nonneg)
  have "n \<noteq> 0" using assms by simp
  have "(x / n) * (x / n) + (y / n) * (y / n) + (z / n) * (z / n) = (x * x + y * y + z * z) / (n * n)"
    by (simp add: add_divide_distrib)
  also have "\<dots> = 1" unfolding nn using \<open>n \<noteq> 0\<close> by simp
  finally show ?thesis .
qed

lemma cos_sin_unit: "cos (a::real) * cos a + sin a * sin a = 1"
  using sin_cos_squared_add2 [of a] by (simp add: power2_eq_square)

lemma rodrigues_orth:
  fixes c s u0 u1 u2 :: real
  assumes cs: "c * c + s * s = 1" and u: "u0 * u0 + u1 * u1 + u2 * u2 = 1"
  shows "dot_nd (transpose_nd (rodrigues c s u0 u1 u2)) (rodrigues c s u0 u1 u2) = Inr (eye 3)"
  apply (simp add: dot_nd_def transpose_nd_def eye_3 upt_3 rodrigues_def)
  apply (intro conjI)
  using assms apply algebra+
  done

lemma rodrigues_det:
  fixes c s u0 u1 u2 :: real
  assumes cs: "c * c + s * s = 1" and u: "u0 * u0 + u1 * u1 + u2 * u2 = 1"
  shows "det3 (rodrigues c s u0 u1 u2) = 1"
  apply (simp add: det3_def rodrigues_def)
  using assms apply algebra
  done

lemma eye_orth: "dot_nd (transpose_nd (eye 3)) (eye 3) = Inr (eye 3)"
  by (simp add: dot_nd_def transpose_nd_def eye_3 upt_3)

lemma eye_det: "det3 (eye 3) = 1"
  by (simp add: det3_def eye_3)

text \<open>C3: for an axis-angle vector of three elements the conversion always returns a
  matrix (no index error, no division by zero), and when the norm of the vector is at
  most 1e-6 the matrix is exactly the 3 by 3 identity: the division by the angle is
  only reached when the angle exceeds 1e-6.\<close>

theorem rotation_small_angle_identity:
  assumes "length aa = 3"
  shows "(\<exists>R. angleaxis_to_rotation_matrix aa = Inr R) \<and>
     (sqrt (vdot aa aa) \<le> 1 / 10 ^ 6 \<longrightarrow> angleaxis_to_rotation_matrix aa = Inr (eye 3))"
proof -
  from assms obtain x y z where aa: "aa = [x, y, z]" using length_3_cases by blast
  show ?thesis
  proof (cases "1 / 10 ^ 6 < sqrt (vdot aa aa)")
    case True
    then show ?thesis using angleaxis_large [of x y z] by (simp add: aa)
  next
    case False
    then show ?thesis using angleaxis_small [of aa] by simp
  qed
qed

text \<open>Witness for C3, at the boundary: the vector (0, 0, 1e-6) has norm 1e-6 and is
  converted to the identity.\<close>

theorem rotation_small_angle_identity_witness:
  "length [0, 0, 1 / 10 ^ 6 :: real] = 3 \<and> sqrt (vdot [0, 0, 1 / 10 ^ 6] [0, 0, 1 / 10 ^ 6]) \<le> 1 / 10 ^ 6
   \<and> angleaxis_to_rotation_matrix [0, 0, 1 / 10 ^ 6] = Inr (eye 3)"
proof -
  have n: "sqrt (vdot [0, 0, 1 / 10 ^ 6] [0, 0, 1 / 10 ^ 6]) = 1 / 10 ^ 6"
    by (simp add: vdot_def real_sqrt_divide)
  show ?thesis
    using rotation_small_angle_identity [of "[0, 0, 1 / 10 ^ 6]"] n by simp
qed

lemma rotation_orthonormal_real:
  assumes "length aa = 3"
  shows "\<exists>R. angleaxis_to_rotation_matrix aa = Inr R \<and>
     dot_nd (transpose_nd R) R = Inr (eye 3) \<and> det3 R = 1"
proof -
  from assms obtain x y z where aa: "aa = [x, y, z]" using length_3_cases by blast
  show ?thesis
  proof (cases "1 / 10 ^ 6 < sqrt (vdot aa aa)")
    case True
    define n where "n = sqrt (x * x + y * y + z * z)"
    have big: "1 / 10 ^ 6 < n" using True by (simp add: aa vdot_3 n_def)
    then have pos: "0 < sqrt (x * x + y * y + z * z)" unfolding n_def
      by (meson less_trans zero_less_divide_1_iff zero_less_numeral zero_less_power)
    have u: "(x / n) * (x / n) + (y / n) * (y / n) + (z / n) * (z / n) = 1"
      unfolding n_def by (rule unit_axis [OF pos])
    have R: "angleaxis_to_rotation_matrix aa = Inr (rodrigues (cos n) (sin n) (x / n) (y / n) (z / n))"
      using angleaxis_large [of x y z] True by (simp add: aa vdot_3 n_def)
    show ?thesis
      using R rodrigues_orth [OF cos_sin_unit u] rodrigues_det [OF cos_sin_unit u] by simp
  next
    case False
    then show ?thesis using angleaxis_small [of aa] eye_orth eye_det by simp
  qed
qed

lemma sqrt_vdot_001: "sqrt (vdot [0, 0, 1] [0, 0, 1]) = 1"
  by (simp add: vdot_def)

text \<open>C2, as amended: for a vector of three elements with norm above 1e-6 the
  returned matrix has the diagonal \<open>c + u[i]\<^sup>2 (1 - c)\<close> and, off the diagonal,
  \<open>u[i] u[j] (1 - c) - u[k] s\<close> when \<open>(i, j, k)\<close> is an even permutation of (0, 1, 2)
  and \<open>u[i] u[j] (1 - c) + u[k] s\<close> otherwise.\<close>

theorem rotation_component_form:
  assumes "length aa = 3" and "1 / 10 ^ 6 < sqrt (vdot aa aa)"
  shows "angleaxis_to_rotation_matrix aa = Inr (component_form (- 1) aa)"
proof -
  from assms obtain x y z where aa: "aa = [x, y, z]" using length_3_cases by blast
  show ?thesis
    using angleaxis_large [of x y z] assms(2)
    by (simp add: aa component_form_def rodrigues_def Let_def upt_3 even_perm3_def
        power2_eq_square)
qed

text \<open>Witness for C2 as amended: the rotation by one radian about the z axis.\<close>

theorem rotation_component_form_witness:
  "length [0, 0, 1 :: real] = 3 \<and> 1 / 10 ^ 6 < sqrt (vdot [0, 0, 1] [0, 0, 1]) \<and>
   angleaxis_to_rotation_matrix [0, 0, 1] = Inr (component_form (- 1) [0, 0, 1])"
  using rotation_component_form [of "[0, 0, 1]"] by (simp add: sqrt_vdot_001)

lemma sin_1_pos: "0 < sin (1::real)"
proof (rule sin_gt_zero)
  show "(0::real) < 1" by simp
  show "(1::real) < pi" using pi_ge_two by linarith
qed

text \<open>Counterexample to C2 as stated (plus sign for even permutations): for the
  vector (0, 0, 1) the entry \<open>R[0][1]\<close> is \<open>- sin 1\<close>, not \<open>sin 1\<close>.\<close>

theorem rotation_component_form_counterexample:
  "1 / 10 ^ 6 < sqrt (vdot [0, 0, 1] [0, 0, 1]) \<and>
   angleaxis_to_rotation_matrix [0, 0, 1] \<noteq> Inr (component_form 1 [0, 0, 1])"
proof -
  have "angleaxis_to_rotation_matrix [0, 0, 1] = Inr (rodrigues (cos 1) (sin 1) 0 0 1)"
    using angleaxis_large [of 0 0 1] by (simp add: sqrt_vdot_001)
  then show ?thesis using sin_1_pos
    by (simp add: sqrt_vdot_001 component_form_def rodrigues_def Let_def upt_3 even_perm3_def)
qed


subsection \<open>Rotation conversion in float64\<close>

lemma f64_max_pos: "4 \<le> f64_max"
  by (simp add: f64_max_def)

lemma f64_of_Fin: "\<bar>x\<bar> \<le> f64_max \<Longrightarrow> f64_of x = Fin x"
  by (auto simp: f64_of_def)

lemma f64_of_0 [simp]: "f64_of 0 = Fin 0"
  by (simp add: f64_of_def f64_max_def)

lemma huge_square: "f64_of (huge * huge) = PInf"
  by (simp add: f64_of_def f64_max_def huge_def)

lemma huge_norm: "f64_sqrt (vdot_f64 [Fin huge, Fin 0, Fin 0] [Fin huge, Fin 0, Fin 0]) = PInf"
  by (simp add: vdot_f64_def huge_square)

lemma angleaxis_f64_overflow: "angleaxis_to_rotation_matrix_f64 [Fin huge, Fin 0, Fin 0] = Inr (full 3 3 NaN)"
  unfolding angleaxis_to_rotation_matrix_f64_def huge_norm
  by (simp add: getitem_def f64_div_def f64_sub_def full_def numeral_3_eq_3)

lemma nan_not_rotation: "\<not> is_rotation_f64 (full 3 3 NaN)"
  by (simp add: is_rotation_f64_def f64_values_def full_def numeral_3_eq_3)


lemma abs_prod_le:
  fixes a b :: real
  assumes "\<bar>a\<bar> \<le> m" "\<bar>b\<bar> \<le> n"
  shows "\<bar>a * b\<bar> \<le> m * n"
  unfolding abs_mult using assms by (intro mult_mono) auto

lemma f64_small:
  assumes "\<bar>x\<bar> \<le> 4"
  shows "f64_of x = Fin x"
  using assms f64_max_pos by (intro f64_of_Fin) linarith

lemma f64_add_Fin: "\<bar>x + y\<bar> \<le> f64_max \<Longrightarrow> f64_add (Fin x) (Fin y) = Fin (x + y)"
  by (simp add: f64_of_Fin)

lemma f64_sub_Fin: "\<bar>x - y\<bar> \<le> f64_max \<Longrightarrow> f64_sub (Fin x) (Fin y) = Fin (x - y)"
  by (simp add: f64_sub_def f64_of_Fin)

lemma f64_mul_Fin: "\<bar>x * y\<bar> \<le> f64_max \<Longrightarrow> f64_mul (Fin x) (Fin y) = Fin (x * y)"
  by (simp add: f64_of_Fin)

lemma rodrigues_term:
  fixes a b c :: real
  assumes "\<bar>a\<bar> \<le> 1" "\<bar>b\<bar> \<le> 1" "\<bar>c\<bar> \<le> 1"
  shows "f64_mul (f64_mul (Fin a) (Fin b)) (f64_sub (Fin 1) (Fin c)) = Fin (a * b * (1 - c))"
    and "\<bar>a * b * (1 - c)\<bar> \<le> 2"
proof -
  have ab: "\<bar>a * b\<bar> \<le> 1" using abs_prod_le [OF assms(1,2)] by simp
  have c1: "\<bar>1 - c\<bar> \<le> 2" using assms(3) by linarith
  show abc: "\<bar>a * b * (1 - c)\<bar> \<le> 2" using abs_prod_le [OF ab c1] by simp
  have 1: "f64_mul (Fin a) (Fin b) = Fin (a * b)"
    using ab f64_max_pos by (intro f64_mul_Fin) linarith
  have 2: "f64_sub (Fin 1) (Fin c) = Fin (1 - c)"
    using c1 f64_max_pos by (intro f64_sub_Fin) linarith
  have 3: "f64_mul (Fin (a * b)) (Fin (1 - c)) = Fin (a * b * (1 - c))"
    using abc f64_max_pos by (intro f64_mul_Fin) linarith
  show "f64_mul (f64_mul (Fin a) (Fin b)) (f64_sub (Fin 1) (Fin c)) = Fin (a * b * (1 - c))"
    by (simp only: 1 2 3)
qed

lemma rodrigues_diag:
  fixes u c :: real
  assumes "\<bar>u\<bar> \<le> 1" "\<bar>c\<bar> \<le> 1"
  shows "f64_add (Fin c) (f64_mul (f64_mul (Fin u) (Fin u)) (f64_sub (Fin 1) (Fin c)))
       = Fin (c + u * u * (1 - c))"
proof -
  have "\<bar>c + u * u * (1 - c)\<bar> \<le> f64_max"
    using rodrigues_term(2) [OF assms(1,1,2)] assms(2) f64_max_pos by linarith
  then have "f64_add (Fin c) (Fin (u * u * (1 - c))) = Fin (c + u * u * (1 - c))"
    by (rule f64_add_Fin)
  then show ?thesis by (simp only: rodrigues_term(1) [OF assms(1,1,2)])
qed

lemma rodrigues_off:
  fixes a b k c s :: real
  assumes "\<bar>a\<bar> \<le> 1" "\<bar>b\<bar> \<le> 1" "\<bar>k\<bar> \<le> 1" "\<bar>c\<bar> \<le> 1" "\<bar>s\<bar> \<le> 1"
  shows "f64_sub (f64_mul (f64_mul (Fin a) (Fin b)) (f64_sub (Fin 1) (Fin c))) (f64_mul (Fin k) (Fin s))
       = Fin (a * b * (1 - c) - k * s)"
    and "f64_add (f64_mul (f64_mul (Fin a) (Fin b)) (f64_sub (Fin 1) (Fin c))) (f64_mul (Fin k) (Fin s))
       = Fin (a * b * (1 - c) + k * s)"
proof -
  have ks: "\<bar>k * s\<bar> \<le> 1" using abs_prod_le [OF assms(3,5)] by simp
  have t: "\<bar>a * b * (1 - c)\<bar> \<le> 2" by (rule rodrigues_term(2) [OF assms(1,2,4)])
  have fks: "f64_mul (Fin k) (Fin s) = Fin (k * s)"
    using ks f64_max_pos by (intro f64_mul_Fin) linarith
  have m: "f64_sub (Fin (a * b * (1 - c))) (Fin (k * s)) = Fin (a * b * (1 - c) - k * s)"
    using ks t f64_max_pos by (intro f64_sub_Fin) linarith
  have p: "f64_add (Fin (a * b * (1 - c))) (Fin (k * s)) = Fin (a * b * (1 - c) + k * s)"
    using ks t f64_max_pos by (intro f64_add_Fin) linarith
  show "f64_sub (f64_mul (f64_mul (Fin a) (Fin b)) (f64_sub (Fin 1) (Fin c))) (f64_mul (Fin k) (Fin s))
       = Fin (a * b * (1 - c) - k * s)"
    by (simp only: rodrigues_term(1) [OF assms(1,2,4)] fks m)
  show "f64_add (f64_mul (f64_mul (Fin a) (Fin b)) (f64_sub (Fin 1) (Fin c))) (f64_mul (Fin k) (Fin s))
       = Fin (a * b * (1 - c) + k * s)"
    by (simp only: rodrigues_term(1) [OF assms(1,2,4)] fks p)
qed

lemma vdot_f64_Fin:
  assumes "x * x + y * y + z * z \<le> f64_max"
  shows "vdot_f64 [Fin x, Fin y, Fin z] [Fin x, Fin y, Fin z] = Fin (x * x + y * y + z * z)"
proof -
  have sq: "0 \<le> x * x" "0 \<le> y * y" "0 \<le> z * z" by simp_all
  have m1: "f64_mul (Fin x) (Fin x) = Fin (x * x)"
    using assms sq by (intro f64_mul_Fin) linarith
  have m2: "f64_mul (Fin y) (Fin y) = Fin (y * y)"
    using assms sq by (intro f64_mul_Fin) linarith
  have m3: "f64_mul (Fin z) (Fin z) = Fin (z * z)"
    using assms sq by (intro f64_mul_Fin) linarith
  have "\<bar>0 + x * x\<bar> \<le> f64_max" using assms sq by linarith
  then have "f64_add (Fin 0) (Fin (x * x)) = Fin (0 + x * x)" by (rule f64_add_Fin)
  then have 2: "f64_add (Fin 0) (Fin (x * x)) = Fin (x * x)" by (simp only: add_0_left)
  have 3: "f64_add (Fin (x * x)) (Fin (y * y)) = Fin (x * x + y * y)"
    using assms sq by (intro f64_add_Fin) linarith
  have 4: "f64_add (Fin (x * x + y * y)) (Fin (z * z)) = Fin (x * x + y * y + z * z)"
    using assms sq by (intro f64_add_Fin) linarith
  have "vdot_f64 [Fin x, Fin y, Fin z] [Fin x, Fin y, Fin z] =
      f64_add (f64_add (f64_add (Fin 0) (f64_mul (Fin x) (Fin x))) (f64_mul (Fin y) (Fin y)))
        (f64_mul (Fin z) (Fin z))"
    by (simp add: vdot_f64_def del: f64_add.simps f64_mul.simps)
  then show ?thesis by (simp only: m1 m2 m3 2 3 4)
qed

lemma unit_component:
  fixes x y z :: real
  assumes "0 < sqrt (x * x + y * y + z * z)"
  shows "\<bar>x / sqrt (x * x + y * y + z * z)\<bar> \<le> 1"
proof -
  have "\<bar>x\<bar> = sqrt (x * x)" by simp
  also have "\<dots> \<le> sqrt (x * x + y * y + z * z)"
    by (rule real_sqrt_le_mono) (simp add: add_nonneg_nonneg)
  finally show ?thesis using assms by (simp add: abs_divide)
qed

lemma angleaxis_f64_in_range:
  assumes "x * x + y * y + z * z \<le> f64_max"
  shows "angleaxis_to_rotation_matrix_f64 [Fin x, Fin y, Fin z]
       = map_sum id (map_nd Fin) (angleaxis_to_rotation_matrix [x, y, z])"
proof -
  define n where "n = sqrt (x * x + y * y + z * z)"
  have "0 \<le> x * x + y * y + z * z" by (simp add: add_nonneg_nonneg)
  then have nonneg: "\<not> x * x + y * y + z * z < 0" by linarith
  have ang: "f64_sqrt (vdot_f64 [Fin x, Fin y, Fin z] [Fin x, Fin y, Fin z]) = Fin n"
    by (simp add: vdot_f64_Fin [OF assms] n_def nonneg)
  have nv: "sqrt (vdot [x, y, z] [x, y, z]) = n" by (simp add: vdot_3 n_def)
  show ?thesis
  proof (cases "1 / 10 ^ 6 < n")
    case False
    then have "angleaxis_to_rotation_matrix [x, y, z] = Inr (eye 3)"
      using angleaxis_small [of "[x, y, z]"] nv by simp
    moreover have "angleaxis_to_rotation_matrix_f64 [Fin x, Fin y, Fin z] = Inr (map_nd Fin (eye 3))"
      unfolding angleaxis_to_rotation_matrix_f64_def ang using False by simp
    ultimately show ?thesis by simp
  next
    case True
    have "(0::real) < 1 / 10 ^ 6" by simp
    with True have "0 < n" by linarith
    then have pos: "0 < sqrt (x * x + y * y + z * z)" "n \<noteq> 0" unfolding n_def by simp_all
    have u: "\<bar>x / n\<bar> \<le> 1" "\<bar>y / n\<bar> \<le> 1" "\<bar>z / n\<bar> \<le> 1"
      unfolding n_def
      using unit_component [of x y z] unit_component [of y z x] unit_component [of z x y] pos(1)
      by (simp_all add: add.commute add.left_commute)
    have q: "f64_quot (Fin x) (Fin n) = Fin (x / n)" "f64_quot (Fin y) (Fin n) = Fin (y / n)"
      "f64_quot (Fin z) (Fin n) = Fin (z / n)"
      using u by (auto intro!: f64_small)
    have cs: "\<bar>cos n\<bar> \<le> 1" "\<bar>sin n\<bar> \<le> 1" by simp_all
    have R: "angleaxis_to_rotation_matrix [x, y, z]
        = Inr (rodrigues (cos n) (sin n) (x / n) (y / n) (z / n))"
      using angleaxis_large [of x y z] True nv by (simp add: n_def vdot_3)
    have gt: "f64_gt (Fin n) (Fin (1 / 10 ^ 6))" using True by simp
    have d: "f64_div (Fin x) (Fin n) = Inr (Fin (x / n))" "f64_div (Fin y) (Fin n) = Inr (Fin (y / n))"
      "f64_div (Fin z) (Fin n) = Inr (Fin (z / n))"
      using pos(2) q by (simp_all add: f64_div_def del: f64_quot.simps)
    have g: "getitem [Fin x, Fin y, Fin z] 0 = Inr (Fin x)" "getitem [Fin x, Fin y, Fin z] 1 = Inr (Fin y)"
      "getitem [Fin x, Fin y, Fin z] 2 = Inr (Fin z)"
      by (simp_all add: getitem_def)
    have t: "f64_cos (Fin n) = Fin (cos n)" "f64_sin (Fin n) = Fin (sin n)" by simp_all
    have "angleaxis_to_rotation_matrix_f64 [Fin x, Fin y, Fin z]
        = Inr (map_nd Fin (rodrigues (cos n) (sin n) (x / n) (y / n) (z / n)))"
      unfolding angleaxis_to_rotation_matrix_f64_def ang Let_def if_P [OF gt] g d t ebind_Inr
      by (simp only: rodrigues_def map_nd_def ndarray.simps list.map
          rodrigues_diag [OF u(1) cs(1)] rodrigues_diag [OF u(2) cs(1)] rodrigues_diag [OF u(3) cs(1)]
          rodrigues_off [OF u(1) u(2) u(3) cs] rodrigues_off [OF u(1) u(3) u(2) cs]
          rodrigues_off [OF u(2) u(1) u(3) cs] rodrigues_off [OF u(2) u(3) u(1) cs]
          rodrigues_off [OF u(3) u(1) u(2) cs] rodrigues_off [OF u(3) u(2) u(1) cs])
    with R show ?thesis by simp
  qed
qed


lemma f64_values_Fin: "f64_values (map_nd Fin R) = Some (map_nd id R)"
  by (simp add: f64_values_def map_nd_def list_all_iff comp_def)

lemma is_rotation_f64_Fin:
  assumes "dot_nd (transpose_nd R) R = Inr (eye 3)" "det3 R = 1"
  shows "is_rotation_f64 (map_nd Fin R)"
proof -
  have "transpose_nd (map_nd id R) = transpose_nd R" "nrows (map_nd id R) = nrows R"
    "ncols (map_nd id R) = ncols R" "elems (map_nd id R) = elems R"
    by (simp_all add: map_nd_def transpose_nd_def)
  then have "dot_nd (transpose_nd (map_nd id R)) (map_nd id R) = dot_nd (transpose_nd R) R"
    "det3 (map_nd id R) = det3 R"
    by (simp_all add: dot_nd_def det3_def)
  then show ?thesis using assms by (simp add: is_rotation_f64_def f64_values_Fin)
qed

text \<open>C4, as amended: for an axis-angle vector of three finite elements whose
  squared norm does not exceed the largest double, the float64 conversion returns the
  matrix of the exact conversion, and that matrix \<open>R\<close> is orthonormal, \<open>R\<^sup>T R = I\<close>,
  with determinant 1.\<close>

theorem rotation_orthonormal_in_range:
  assumes "length aa = 3" and "vdot aa aa \<le> f64_max"
  shows "\<exists>R. angleaxis_to_rotation_matrix_f64 (map Fin aa) = Inr (map_nd Fin R) \<and>
     dot_nd (transpose_nd R) R = Inr (eye 3) \<and> det3 R = 1 \<and>
     is_rotation_f64 (map_nd Fin R)"
proof -
  from assms(1) obtain x y z where aa: "aa = [x, y, z]" using length_3_cases by blast
  have r: "x * x + y * y + z * z \<le> f64_max" using assms(2) by (simp add: aa vdot_3)
  obtain R where R: "angleaxis_to_rotation_matrix aa = Inr R"
    "dot_nd (transpose_nd R) R = Inr (eye 3)" "det3 R = 1"
    using rotation_orthonormal_real [OF assms(1)] by blast
  have "angleaxis_to_rotation_matrix_f64 (map Fin aa) = Inr (map_nd Fin R)"
    using angleaxis_f64_in_range [OF r] R(1) by (simp add: aa)
  then show ?thesis using R(2,3) is_rotation_f64_Fin [OF R(2,3)] by blast
qed

text \<open>Witness for C4 as amended: the rotation by one radian about the z axis.\<close>

theorem rotation_orthonormal_in_range_witness:
  "length [0, 0, 1 :: real] = 3 \<and> vdot [0, 0, 1] [0, 0, 1] \<le> f64_max \<and>
   (\<exists>R. angleaxis_to_rotation_matrix_f64 [Fin 0, Fin 0, Fin 1] = Inr (map_nd Fin R) \<and>
     dot_nd (transpose_nd R) R = Inr (eye 3) \<and> det3 R = 1 \<and>
     is_rotation_f64 (map_nd Fin R))"
proof -
  have h: "length [0, 0, 1 :: real] = 3" "vdot [0, 0, 1] [0, 0, 1] \<le> f64_max"
    using f64_max_pos by (simp_all add: vdot_def)
  show ?thesis
    using rotation_orthonormal_in_range [OF h] h by simp
qed

text \<open>Counterexample to C4 as stated (every vector of three elements): for the
  finite vector \<open>(2 ^ 600, 0, 0)\<close> the squared norm overflows to infinity, its cosine
  and sine are NaN, and every entry of the returned matrix is NaN.\<close>

theorem rotation_orthonormal_counterexample:
  "length [Fin huge, Fin 0, Fin 0] = 3 \<and>
   angleaxis_to_rotation_matrix_f64 [Fin huge, Fin 0, Fin 0] = Inr (full 3 3 NaN) \<and>
   f64_values (full 3 3 NaN) = None \<and>
   \<not> is_rotation_f64 (full 3 3 NaN)"
  using angleaxis_f64_overflow nan_not_rotation by (simp add: f64_values_def full_def numeral_3_eq_3)

section \<open>Point transform: proofs\<close>

lemma wf_arrayD:
  assumes "wf_array a"
  shows "length (elems a) = nrows a" and "\<And>i. i < nrows a \<Longrightarrow> length (elems a ! i) = ncols a"
  using assms by (auto simp: wf_array_def list_all_length)

lemma wf_row_3:
  assumes "wf_array P" "ncols P = 3" "i < nrows P"
  shows "elems P ! i = [elems P ! i ! 0, elems P ! i ! 1, elems P ! i ! 2]"
proof -
  have "length (elems P ! i) = 3" using assms wf_arrayD(2) by metis
  then obtain x y z where "elems P ! i = [x, y, z]" using length_3_cases by blast
  then show ?thesis by simp
qed

lemma append_last_3: "length xs = 3 \<Longrightarrow> xs @ [v] = [xs ! 0, xs ! 1, xs ! 2, v]"
  using length_3_cases [of xs] by auto

lemma fill_first_columns:
  assumes "wf_array P" "ncols P = 3"
  shows "setitem_cols (np_empty (nrows P) 4) 0 3 P = Inr (with_last undefined P)"
proof -
  have len: "length (elems P) = nrows P" by (rule wf_arrayD(1) [OF assms(1)])
  have row: "\<And>i. i < nrows P \<Longrightarrow> length (elems P ! i) = 3"
    using wf_arrayD(2) [OF assms(1)] assms(2) by simp
  show ?thesis
    using assms(2) len
    apply (simp add: setitem_cols_def Let_def with_last_def np_empty_def)
    apply (rule nth_equalityI)
     apply simp
    apply (auto simp add: upt_4 row append_last_3)
    done
qed

lemma fill_last_column:
  assumes "wf_array P" "ncols P = 3"
  shows "setitem_col (with_last u P) 3 v = Inr (with_last v P)"
proof -
  have "map ((\<lambda>r. r[3 := v]) \<circ> (\<lambda>p. p @ [u])) (elems P) = map (\<lambda>p. p @ [v]) (elems P)"
  proof (rule map_cong [OF refl])
    fix p assume "p \<in> set (elems P)"
    then have "length p = 3" using assms by (auto simp: wf_array_def list_all_iff)
    then show "((\<lambda>r. r[3 := v]) \<circ> (\<lambda>p. p @ [u])) p = p @ [v]" by (simp add: list_update_append)
  qed
  then show ?thesis using assms by (simp add: setitem_col_def with_last_def)
qed

lemma vdot_4:
  assumes "length r = 4" "length q = 4"
  shows "vdot r q = (\<Sum>k\<leftarrow>[0..<4]. r ! k * q ! k)"
proof -
  obtain a b c d where r: "r = [a, b, c, d]"
    using assms(1) by (cases r; cases "tl r"; cases "tl (tl r)"; cases "tl (tl (tl r))") auto
  obtain a' b' c' d' where q: "q = [a', b', c', d']"
    using assms(2) by (cases q; cases "tl q"; cases "tl (tl q)"; cases "tl (tl (tl q))") auto
  show ?thesis by (simp add: r q vdot_def upt_4)
qed

lemma dot_augmented:
  assumes P: "wf_array P" "ncols P = 3" and T: "wf_array T" "nrows T = 4" "ncols T = 4"
  shows "\<exists>prod. dot_nd T (transpose_nd (with_last 1 P)) = Inr prod \<and>
    transpose_nd (rows_upto prod 3) = homogeneous_transform P T"
proof -
  let ?A = "with_last 1 P"
  let ?f = "\<lambda>r. map (\<lambda>j. \<Sum>k\<leftarrow>[0..<4]. r ! k * (elems (transpose_nd ?A) ! k ! j)) [0..<nrows P]"
  let ?prod = "\<lparr>nrows = 4, ncols = nrows P, elems = map ?f (elems T)\<rparr>"
  have lenP: "length (elems P) = nrows P" by (rule wf_arrayD(1) [OF P(1)])
  have lenT: "length (elems T) = 4" using wf_arrayD(1) [OF T(1)] T(2) by simp
  have d: "dot_nd T (transpose_nd ?A) = Inr ?prod"
    using P T by (simp add: dot_nd_def transpose_nd_def with_last_def)
  have "map (\<lambda>j. map (\<lambda>r. r ! j) (take 3 (map ?f (elems T)))) [0..<nrows P]
      = map (\<lambda>p. take 3 (map (\<lambda>row. vdot row (p @ [1])) (elems T))) (elems P)"
  proof (rule nth_equalityI)
    show "length (map (\<lambda>j. map (\<lambda>r. r ! j) (take 3 (map ?f (elems T)))) [0..<nrows P])
        = length (map (\<lambda>p. take 3 (map (\<lambda>row. vdot row (p @ [1])) (elems T))) (elems P))"
      using lenP by simp
  next
    fix j assume "j < length (map (\<lambda>j. map (\<lambda>r. r ! j) (take 3 (map ?f (elems T)))) [0..<nrows P])"
    then have j: "j < nrows P" by simp
    then have j': "j < length (elems P)" using lenP by simp
    have lp: "length (elems P ! j) = 3" using wf_arrayD(2) [OF P(1) j] P(2) by simp
    have row: "\<And>r. r \<in> set (take 3 (elems T)) \<Longrightarrow>
        ?f r ! j = vdot r (elems P ! j @ [1])"
    proof -
      fix r assume "r \<in> set (take 3 (elems T))"
      then have "r \<in> set (elems T)" by (rule in_set_takeD)
      then have lr: "length r = 4" using T by (auto simp: wf_array_def list_all_iff)
      have "\<And>k. k < 4 \<Longrightarrow> elems (transpose_nd ?A) ! k ! j = (elems P ! j @ [1]) ! k"
        using j j' P(2) by (simp add: transpose_nd_def with_last_def)
      then have "(\<Sum>k\<leftarrow>[0..<4]. r ! k * (elems (transpose_nd ?A) ! k ! j))
          = (\<Sum>k\<leftarrow>[0..<4]. r ! k * ((elems P ! j @ [1]) ! k))"
        by (simp add: upt_4)
      also have "\<dots> = vdot r (elems P ! j @ [1])"
        using vdot_4 [OF lr, of "elems P ! j @ [1]"] lp by simp
      finally show "?f r ! j = vdot r (elems P ! j @ [1])" using j by simp
    qed
    show "map (\<lambda>j. map (\<lambda>r. r ! j) (take 3 (map ?f (elems T)))) [0..<nrows P] ! j
        = map (\<lambda>p. take 3 (map (\<lambda>row. vdot row (p @ [1])) (elems T))) (elems P) ! j"
      using j j' row by (simp add: take_map)
  qed
  then have "transpose_nd (rows_upto ?prod 3) = homogeneous_transform P T"
    by (simp add: transpose_nd_def rows_upto_def homogeneous_transform_def)
  with d show ?thesis by blast
qed

lemma transform_h_result:
  assumes "points < length h" "T < length h"
    and P: "wf_array (h ! points)" "ncols (h ! points) = 3"
    and T: "wf_array (h ! T)" "nrows (h ! T) = 4" "ncols (h ! T) = 4"
  shows "\<exists>new. transform_pointcloud_points_h h points T =
      Inr (homogeneous_transform (h ! points) (h ! T), h @ new)"
proof -
  obtain prod where d: "dot_nd (h ! T) (transpose_nd (with_last 1 (h ! points))) = Inr prod"
    and out: "transpose_nd (rows_upto prod 3) = homogeneous_transform (h ! points) (h ! T)"
    using dot_augmented [OF P T] by blast
  have "transform_pointcloud_points_h h points T =
      Inr (homogeneous_transform (h ! points) (h ! T), h @ [with_last 1 (h ! points), prod])"
    using assms(1,2) P(2)
    by (simp add: transform_pointcloud_points_h_def alloc_def nth_append
        fill_first_columns [OF P] fill_last_column [OF P] d out)
  then show ?thesis by blast
qed





lemma wf_homogeneous_transform:
  assumes "wf_array P" and "wf_array T" "nrows T = 4"
  shows "wf_array (homogeneous_transform P T)"
    and "nrows (homogeneous_transform P T) = nrows P"
    and "ncols (homogeneous_transform P T) = 3"
  using assms by (simp_all add: wf_array_def homogeneous_transform_def list_all_iff)

lemma transform_value:
  assumes P: "wf_array P" "ncols P = 3" and T: "wf_array T" "nrows T = 4" "ncols T = 4"
  shows "transform_pointcloud_points P T = Inr (homogeneous_transform P T)"
proof -
  obtain new where "transform_pointcloud_points_h [P, T] 0 1 =
      Inr (homogeneous_transform P T, [P, T] @ new)"
    using transform_h_result [of 0 "[P, T]" 1] P T by auto
  then show ?thesis by (simp add: transform_pointcloud_points_def)
qed




lemma example_points_wf: "wf_array example_points" "ncols example_points = 3"
  by (simp_all add: example_points_def wf_array_def)

lemma example_T_wf: "wf_array example_T" "nrows example_T = 4" "ncols example_T = 4"
  by (simp_all add: example_T_def wf_array_def)



text \<open>C5: for points of shape (n, 3) and a 4 by 4 matrix \<open>T\<close> the function returns
  the array of shape (n, 3) whose row \<open>i\<close> is the point \<open>i\<close> extended by 1, multiplied
  from the left by \<open>T\<close>, without the homogeneous coordinate of the product.\<close>

theorem transform_is_homogeneous_transform:
  assumes "wf_array points" "ncols points = 3"
    and "wf_array T" "nrows T = 4" "ncols T = 4"
  shows "transform_pointcloud_points points T = Inr (homogeneous_transform points T)"
  using assms by (rule transform_value)

text \<open>Witness for C5: the two example points under the example transform.\<close>

theorem transform_is_homogeneous_transform_witness:
  "wf_array example_points \<and> ncols example_points = 3 \<and>
   wf_array example_T \<and> nrows example_T = 4 \<and> ncols example_T = 4 \<and>
   transform_pointcloud_points example_points example_T =
     Inr \<lparr>nrows = 2, ncols = 3, elems = [[-1, 3, 6], [-4, 6, 9]]\<rparr>"
proof -
  have "homogeneous_transform example_points example_T =
      \<lparr>nrows = 2, ncols = 3, elems = [[-1, 3, 6], [-4, 6, 9]]\<rparr>"
    by (simp add: homogeneous_transform_def example_points_def example_T_def vdot_def)
  then show ?thesis
    using transform_is_homogeneous_transform [OF example_points_wf example_T_wf]
      example_points_wf example_T_wf by simp
qed

text \<open>C10: on any store that holds points of shape (n, 3) and a 4 by 4 transform,
  the function returns an array of \<open>n\<close> rows and 3 columns, and the store it leaves
  holds every array that was there before unchanged, the points among them: the
  function writes only to the two arrays it allocates.\<close>

theorem transform_keeps_shape_and_input:
  assumes "points < length h" "T < length h"
    and "wf_array (h ! points)" "ncols (h ! points) = 3"
    and "wf_array (h ! T)" "nrows (h ! T) = 4" "ncols (h ! T) = 4"
  shows "\<exists>out h'. transform_pointcloud_points_h h points T = Inr (out, h') \<and>
     wf_array out \<and> nrows out = nrows (h ! points) \<and> ncols out = 3 \<and>
     h' ! points = h ! points \<and> take (length h) h' = h"
proof -
  obtain new where r: "transform_pointcloud_points_h h points T =
      Inr (homogeneous_transform (h ! points) (h ! T), h @ new)"
    using transform_h_result [OF assms] by blast
  show ?thesis
    using r assms(1) wf_homogeneous_transform [OF assms(3,5,6)]
    by (simp add: nth_append)
qed

text \<open>Witness for C10: the store of the example points and the example transform.\<close>

theorem transform_keeps_shape_and_input_witness:
  "(0::nat) < length [example_points, example_T] \<and> (1::nat) < length [example_points, example_T] \<and>
   wf_array ([example_points, example_T] ! 0) \<and> ncols ([example_points, example_T] ! 0) = 3 \<and>
   wf_array ([example_points, example_T] ! 1) \<and> nrows ([example_points, example_T] ! 1) = 4 \<and>
   ncols ([example_points, example_T] ! 1) = 4 \<and>
   (\<exists>out h'. transform_pointcloud_points_h [example_points, example_T] 0 1 = Inr (out, h') \<and>
      nrows out = 2 \<and> ncols out = 3 \<and> h' ! 0 = example_points \<and> h' ! 1 = example_T)"
proof -
  have h: "(0::nat) < length [example_points, example_T]" "(1::nat) < length [example_points, example_T]"
    "wf_array ([example_points, example_T] ! 0)" "ncols ([example_points, example_T] ! 0) = 3"
    "wf_array ([example_points, example_T] ! 1)" "nrows ([example_points, example_T] ! 1) = 4"
    "ncols ([example_points, example_T] ! 1) = 4"
    using example_points_wf example_T_wf by simp_all
  from transform_keeps_shape_and_input [OF h] obtain out h' where
    r: "transform_pointcloud_points_h [example_points, example_T] 0 1 = Inr (out, h')"
      "nrows out = nrows ([example_points, example_T] ! 0)" "ncols out = 3"
      "h' ! 0 = [example_points, example_T] ! 0"
      "take (length [example_points, example_T]) h' = [example_points, example_T]"
    by blast
  have "h' ! 1 = example_T"
    using r(5) by (metis h(2) nth_take nth_Cons_0 nth_Cons_Suc One_nat_def)
  moreover have "nrows out = 2" using r(2) by (simp add: example_points_def)
  ultimately show ?thesis using h r by auto
qed

subsection \<open>Point transform in float64\<close>


lemma shape_map_nd [simp]: "nrows (map_nd f a) = nrows a" "ncols (map_nd f a) = ncols a"
  by (simp_all add: map_nd_def)

lemma with_last_map_nd: "with_last (f v) (map_nd f a) = map_nd f (with_last v a)"
  by (simp add: with_last_def map_nd_def)























section \<open>Camera glyph: proofs\<close>

lemma camera_actor_vertices:
  assumes "nrows R = 3" "ncols R = 3" "length t = 3"
  shows "\<exists>a. create_camera_actor R t = Inr a \<and>
     cam_vertices a = map (glyph_vertex R t) (elems cam_points)"
proof -
  obtain t0 t1 t2 where t: "t = [t0, t1, t2]" using assms(3) length_3_cases by blast
  show ?thesis
    using assms(1,2)
    by (simp add: create_camera_actor_def sub_row_def map_nd_def cam_points_def dot_nd_def
        glyph_vertex_def t upt_3)
qed

lemma zeros_3: "zeros 3 = [0, 0, 0]"
  by (simp add: zeros_def numeral_3_eq_3)

lemma camera_actor_identity:
  "create_camera_actor (eye 3) (zeros 3) =
     Inr \<lparr>cam_vertices = map (map (\<lambda>x. 0.25 * x)) (elems cam_points),
          cam_lines = [[1, 2, 3, 4, 1], [1, 0, 2], [3, 0, 4], [8, 10, 9]],
          cam_polys = [[5, 6, 7]]\<rparr>"
  by (simp add: create_camera_actor_def sub_row_def map_nd_def cam_points_def dot_nd_def
        eye_3 zeros_3 upt_3)

text \<open>C7: for a 3 by 3 matrix \<open>R\<close> and a translation \<open>t\<close> of three elements each of the 11
  local vertices \<open>P\<close> is placed at \<open>(0.25 P - t) R\<close>; with the identity rotation and the
  zero translation every vertex is 0.25 times its local coordinates, and vertex 0 is
  the origin.\<close>

theorem camera_glyph_placement:
  assumes "nrows R = 3" "ncols R = 3" "length t = 3"
  shows "(\<exists>a. create_camera_actor R t = Inr a \<and>
            cam_vertices a = map (glyph_vertex R t) (elems cam_points))
       \<and> (\<exists>a. create_camera_actor (eye 3) (zeros 3) = Inr a \<and>
            cam_vertices a = map (map (\<lambda>x. 0.25 * x)) (elems cam_points) \<and>
            length (cam_vertices a) = 11 \<and>
            cam_vertices a ! 0 = [0, 0, 0])"
  using camera_actor_vertices [OF assms] camera_actor_identity
  by (simp add: cam_points_def)

text \<open>Witness for C7: the identity rotation with the translation (1, 2, 3).\<close>

theorem camera_glyph_placement_witness:
  "nrows (eye 3) = 3 \<and> ncols (eye 3) = 3 \<and> length [1, 2, 3 :: real] = 3 \<and>
   (\<exists>a. create_camera_actor (eye 3) [1, 2, 3] = Inr a \<and>
      cam_vertices a ! 0 = [-1, -2, -3] \<and> cam_vertices a ! 3 = [-0.75, -1.75, -2.625])"
proof -
  have h: "nrows (eye 3) = 3" "ncols (eye 3) = 3" "length [1, 2, 3 :: real] = 3"
    by (simp_all add: eye_3)
  from camera_glyph_placement [OF h] obtain a where
    a: "create_camera_actor (eye 3) [1, 2, 3] = Inr a"
       "cam_vertices a = map (glyph_vertex (eye 3) [1, 2, 3]) (elems cam_points)"
    by blast
  have "cam_vertices a ! 0 = [-1, -2, -3]" "cam_vertices a ! 3 = [-0.75, -1.75, -2.625]"
    by (simp_all add: a(2) cam_points_def glyph_vertex_def eye_3 upt_3)
  with a(1) h show ?thesis by simp
qed


section \<open>Scene composer: proofs\<close>

lemma camera_matrix_4:
  "camera_matrix [a, b, c, d] h w =
     Inr \<lparr>nrows = 3, ncols = 3,
          elems = [[a * real w, 0, c * real w], [0, b * real h, d * real h], [0, 0, 1]]\<rparr>"
  by (simp add: camera_matrix_def getitem_def setitem2_def eye_3)

lemma np_uint8_byte [simp]: "np_uint8 255 = 255" "np_uint8 0 = 0"
  by (simp_all add: np_uint8_def)

lemma unproject_pixel:
  "0 < d \<Longrightarrow> unproject_entry unproject_spec [1, 1, 1/2, 1/2] (eye 3) (zeros 3) (pixel d [c0, c1, c2]) =
    Inr \<lparr>pc_points = \<lparr>nrows = 1, ncols = 3, elems = [[- d / 2, - d / 2, d]]\<rparr>,
         pc_colors = Some \<lparr>nrows = 1, ncols = 3, elems = [[np_uint8 c0, np_uint8 c1, np_uint8 c2]]\<rparr>\<rparr>"
  by (simp add: unproject_entry_def camera_matrix_4 pixel_def entry_image_def getitem_def
      full_def map_nd_def unproject_spec_def eye_3 zeros_3 upt_3 Let_def)


lemma ebind_eq_Inr: "ebind m f = Inr y \<longleftrightarrow> (\<exists>x. m = Inr x \<and> f x = Inr y)"
  by (cases m) simp_all

lemma vstack_Inr:
  "vstack a b = Inr c \<Longrightarrow> elems c = elems a @ elems b \<and> nrows c = nrows a + nrows b"
  by (auto simp: vstack_def split: if_splits)

lemma depths_step_Some:
  assumes "depths_step k i R t (Some pc) v = Inr st"
  shows "\<exists>cur pc' ccur c0 c'. st = Some pc' \<and> unproject_entry k i R t v = Inr cur \<and>
     elems (pc_points pc') = elems (pc_points cur) @ elems (pc_points pc) \<and>
     nrows (pc_points pc') = nrows (pc_points cur) + nrows (pc_points pc) \<and>
     pc_colors cur = Some ccur \<and> pc_colors pc = Some c0 \<and> pc_colors pc' = Some c' \<and>
     elems c' = elems ccur @ elems c0"
proof -
  from assms obtain cur pts cols where
    u: "unproject_entry k i R t v = Inr cur" and
    v: "vstack (pc_points cur) (pc_points pc) = Inr pts" and
    c: "(case (pc_colors cur, pc_colors pc) of
          (Some cur, Some acc) \<Rightarrow> vstack cur acc
        | _ \<Rightarrow> Inl KeyError) = Inr cols" and
    st: "st = Some (pc\<lparr>pc_points := pts, pc_colors := Some cols\<rparr>)"
    by (auto simp: depths_step_def ebind_eq_Inr)
  from c obtain ccur c0 where
    cs: "pc_colors cur = Some ccur" "pc_colors pc = Some c0" "vstack ccur c0 = Inr cols"
    by (auto split: option.splits)
  show ?thesis
    using u st cs(1,2) vstack_Inr [OF v] vstack_Inr [OF cs(3)] by simp
qed

lemma depths_loop_Some:
  assumes "depths_loop k i R t (Some pc) ds = Inr st"
  shows "\<exists>pc' pcs. st = Some pc' \<and>
     map (\<lambda>(key, v). unproject_entry k i R t v) ds = map Inr pcs \<and>
     elems (pc_points pc') = concat (rev (map (elems \<circ> pc_points) pcs)) @ elems (pc_points pc) \<and>
     nrows (pc_points pc') = sum_list (map (nrows \<circ> pc_points) pcs) + nrows (pc_points pc) \<and>
     (ds = [] \<and> pc' = pc \<or>
      (\<exists>cs c0 c'. map pc_colors pcs = map Some cs \<and> pc_colors pc = Some c0 \<and>
         pc_colors pc' = Some c' \<and> elems c' = concat (rev (map elems cs)) @ elems c0))"
  using assms
proof (induction ds arbitrary: pc)
  case Nil
  then show ?case by auto
next
  case (Cons e ds)
  obtain key v where e: "e = (key, v)" by (cases e)
  from Cons.prems obtain st1 where
    s1: "depths_step k i R t (Some pc) v = Inr st1" and
    l1: "depths_loop k i R t st1 ds = Inr st"
    by (auto simp: e ebind_eq_Inr)
  from depths_step_Some [OF s1] obtain cur pc1 ccur c0 c1 where
    st1: "st1 = Some pc1" and cur: "unproject_entry k i R t v = Inr cur" and
    p1: "elems (pc_points pc1) = elems (pc_points cur) @ elems (pc_points pc)" and
    n1: "nrows (pc_points pc1) = nrows (pc_points cur) + nrows (pc_points pc)" and
    c: "pc_colors cur = Some ccur" "pc_colors pc = Some c0" "pc_colors pc1 = Some c1"
       "elems c1 = elems ccur @ elems c0"
    by blast
  from Cons.IH [OF l1 [unfolded st1]] obtain pc' pcs where
    st: "st = Some pc'" and
    m: "map (\<lambda>(key, v). unproject_entry k i R t v) ds = map Inr pcs" and
    p: "elems (pc_points pc') = concat (rev (map (elems \<circ> pc_points) pcs)) @ elems (pc_points pc1)" and
    n: "nrows (pc_points pc') = sum_list (map (nrows \<circ> pc_points) pcs) + nrows (pc_points pc1)" and
    cc: "ds = [] \<and> pc' = pc1 \<or>
      (\<exists>cs c0 c'. map pc_colors pcs = map Some cs \<and> pc_colors pc1 = Some c0 \<and>
         pc_colors pc' = Some c' \<and> elems c' = concat (rev (map elems cs)) @ elems c0)"
    by blast
  have m': "map (\<lambda>(key, v). unproject_entry k i R t v) (e # ds) = map Inr (cur # pcs)"
    using m cur by (simp add: e)
  have p': "elems (pc_points pc') = concat (rev (map (elems \<circ> pc_points) (cur # pcs))) @ elems (pc_points pc)"
    using p p1 by simp
  have n': "nrows (pc_points pc') = sum_list (map (nrows \<circ> pc_points) (cur # pcs)) + nrows (pc_points pc)"
    using n n1 by simp
  have "\<exists>cs c'. map pc_colors (cur # pcs) = map Some cs \<and>
         pc_colors pc' = Some c' \<and> elems c' = concat (rev (map elems cs)) @ elems c0"
  proof -
    from cc show ?thesis
    proof
      assume a: "ds = [] \<and> pc' = pc1"
      then have "pcs = []" using m by simp
      then have "map pc_colors (cur # pcs) = map Some [ccur] \<and> pc_colors pc' = Some c1 \<and>
          elems c1 = concat (rev (map elems [ccur])) @ elems c0"
        using a c by simp
      then show ?thesis by blast
    next
      assume "\<exists>cs c0 c'. map pc_colors pcs = map Some cs \<and> pc_colors pc1 = Some c0 \<and>
         pc_colors pc' = Some c' \<and> elems c' = concat (rev (map elems cs)) @ elems c0"
      then obtain cs c' where b: "map pc_colors pcs = map Some cs" "pc_colors pc' = Some c'"
          "elems c' = concat (rev (map elems cs)) @ elems c1"
        using c(3) by auto
      then have "map pc_colors (cur # pcs) = map Some (ccur # cs) \<and> pc_colors pc' = Some c' \<and>
          elems c' = concat (rev (map elems (ccur # cs))) @ elems c0"
        using c by simp
      then show ?thesis by blast
    qed
  qed
  with st m' p' n' c(2) show ?case by blast
qed

lemma depths_loop_None:
  assumes "depths_loop k i R t None ds = Inr (Some pc)"
  shows "\<exists>pcs. map (\<lambda>(key, v). unproject_entry k i R t v) ds = map Inr pcs \<and>
     elems (pc_points pc) = concat (rev (map (elems \<circ> pc_points) pcs)) \<and>
     nrows (pc_points pc) = sum_list (map (nrows \<circ> pc_points) pcs) \<and>
     (2 \<le> length ds \<longrightarrow>
       (\<exists>cs c. map pc_colors pcs = map Some cs \<and> pc_colors pc = Some c \<and>
          elems c = concat (rev (map elems cs))))"
proof (cases ds)
  case Nil
  then show ?thesis using assms by simp
next
  case (Cons e rest)
  obtain key v where e: "e = (key, v)" by (cases e)
  from assms obtain pc1 where
    u: "unproject_entry k i R t v = Inr pc1" and
    l: "depths_loop k i R t (Some pc1) rest = Inr (Some pc)"
    by (auto simp: Cons e ebind_eq_Inr depths_step_def)
  from depths_loop_Some [OF l] obtain pcs where
    m: "map (\<lambda>(key, v). unproject_entry k i R t v) rest = map Inr pcs" and
    p: "elems (pc_points pc) = concat (rev (map (elems \<circ> pc_points) pcs)) @ elems (pc_points pc1)" and
    n: "nrows (pc_points pc) = sum_list (map (nrows \<circ> pc_points) pcs) + nrows (pc_points pc1)" and
    cc: "rest = [] \<and> pc = pc1 \<or>
      (\<exists>cs c0 c'. map pc_colors pcs = map Some cs \<and> pc_colors pc1 = Some c0 \<and>
         pc_colors pc = Some c' \<and> elems c' = concat (rev (map elems cs)) @ elems c0)"
    by blast
  have m': "map (\<lambda>(key, v). unproject_entry k i R t v) ds = map Inr (pc1 # pcs)"
    using m u by (simp add: Cons e)
  have p': "elems (pc_points pc) = concat (rev (map (elems \<circ> pc_points) (pc1 # pcs)))"
    using p by simp
  have n': "nrows (pc_points pc) = sum_list (map (nrows \<circ> pc_points) (pc1 # pcs))"
    using n by simp
  have "2 \<le> length ds \<longrightarrow>
       (\<exists>cs c. map pc_colors (pc1 # pcs) = map Some cs \<and> pc_colors pc = Some c \<and>
          elems c = concat (rev (map elems cs)))"
  proof
    assume "2 \<le> length ds"
    then have "rest \<noteq> []" using Cons by auto
    with cc obtain cs c0 c' where b: "map pc_colors pcs = map Some cs" "pc_colors pc1 = Some c0"
         "pc_colors pc = Some c'" "elems c' = concat (rev (map elems cs)) @ elems c0"
      by blast
    then have "map pc_colors (pc1 # pcs) = map Some (c0 # cs) \<and> pc_colors pc = Some c' \<and>
          elems c' = concat (rev (map elems (c0 # cs)))"
      by simp
    then show "\<exists>cs c. map pc_colors (pc1 # pcs) = map Some cs \<and> pc_colors pc = Some c \<and>
          elems c = concat (rev (map elems cs))"
      by blast
  qed
  with m' p' n' show ?thesis by blast
qed

lemma create_pointcloud_actor_vertices:
  "create_pointcloud_actor points colors = Inr a \<Longrightarrow> cloud_vertices a = elems points"
  by (auto simp: create_pointcloud_actor_def ebind_eq_Inr split: if_splits)

text \<open>C1: when the composer of several depth maps succeeds, every entry was
  unprojected, and the merged point cloud handed to the renderer is the concatenation
  of the entries' points in reverse order of processing: each new map is stacked
  before the running arrays, so the map processed last comes first. With two or more
  entries the colours are stacked in the same order.\<close>

theorem depths_stacked_last_first:
  assumes "visualize_depths k depths intrinsics = Inr sc"
  shows "\<exists>pc pcs.
     depths_loop k (case intrinsics of None \<Rightarrow> default_intrinsics | Some i \<Rightarrow> i)
       (eye 3) (zeros 3) None depths = Inr (Some pc) \<and>
     map (\<lambda>(key, v). unproject_entry k
            (case intrinsics of None \<Rightarrow> default_intrinsics | Some i \<Rightarrow> i) (eye 3) (zeros 3) v)
         depths = map Inr pcs \<and>
     cloud_vertices (scene_cloud sc) = elems (pc_points pc) \<and>
     elems (pc_points pc) = concat (rev (map (elems \<circ> pc_points) pcs)) \<and>
     nrows (pc_points pc) = sum_list (map (nrows \<circ> pc_points) pcs) \<and>
     (2 \<le> length depths \<longrightarrow>
       (\<exists>cs c. map pc_colors pcs = map Some cs \<and> pc_colors pc = Some c \<and>
          elems c = concat (rev (map elems cs))))"
proof -
  let ?i = "case intrinsics of None \<Rightarrow> default_intrinsics | Some i \<Rightarrow> i"
  from assms obtain pc a where
    l: "depths_loop k ?i (eye 3) (zeros 3) None depths = Inr (Some pc)" and
    a: "create_pointcloud_actor (pc_points pc) (pc_colors pc) = Inr a" and
    sc: "scene_cloud sc = a"
    by (auto simp: visualize_depths_def Let_def ebind_eq_Inr split: option.splits)
  from depths_loop_None [OF l] create_pointcloud_actor_vertices [OF a] l sc
  show ?thesis by blast
qed


lemma two_pixels_scene:
  "\<exists>sc. visualize_depths unproject_spec two_pixels (Some [1, 1, 1/2, 1/2]) = Inr sc \<and>
     cloud_vertices (scene_cloud sc) = [[-2, -2, 4], [-1, -1, 2]] \<and>
     cloud_colors (scene_cloud sc) = Some [[0, 255, 0], [255, 0, 0]]"
  by (simp add: visualize_depths_def two_pixels_def depths_step_def unproject_pixel vstack_def
      create_pointcloud_actor_def camera_actor_identity)

text \<open>Witness for C1: two depth maps of one pixel each give a merged cloud of exactly
  two points, the point of the second map before the point of the first.\<close>

theorem depths_stacked_last_first_witness:
  "\<exists>sc (pc :: pointcloud) pcs.
     visualize_depths unproject_spec two_pixels (Some [1, 1, 1/2, 1/2]) = Inr sc \<and>
     map (\<lambda>(key, v). unproject_entry unproject_spec [1, 1, 1/2, 1/2] (eye 3) (zeros 3) v)
         two_pixels = map Inr pcs \<and>
     map (elems \<circ> pc_points) pcs = [[[-1, -1, 2]], [[-2, -2, 4]]] \<and>
     cloud_vertices (scene_cloud sc) = [[-2, -2, 4], [-1, -1, 2]] \<and>
     length (cloud_vertices (scene_cloud sc)) = 2 \<and>
     elems (pc_points pc) = concat (rev (map (elems \<circ> pc_points) pcs))"
proof -
  obtain sc where sc: "visualize_depths unproject_spec two_pixels (Some [1, 1, 1/2, 1/2]) = Inr sc"
    and v: "cloud_vertices (scene_cloud sc) = [[-2, -2, 4], [-1, -1, 2]]"
    using two_pixels_scene by blast
  from depths_stacked_last_first [OF sc] obtain pc :: pointcloud and pcs where
    m0: "map (\<lambda>(key, v). unproject_entry unproject_spec
            (case Some [1, 1, 1/2, 1/2] of None \<Rightarrow> default_intrinsics | Some i \<Rightarrow> i)
            (eye 3) (zeros 3) v) two_pixels = map Inr pcs" and
    e: "elems (pc_points pc) = concat (rev (map (elems \<circ> pc_points) pcs))"
    by blast
  have m: "map (\<lambda>(key, v). unproject_entry unproject_spec [1, 1, 1/2, 1/2] (eye 3) (zeros 3) v)
         two_pixels = map Inr pcs"
    using m0 by simp
  have "map (\<lambda>(key, v). unproject_entry unproject_spec [1, 1, 1/2, 1/2] (eye 3) (zeros 3) v)
         two_pixels =
      [Inr \<lparr>pc_points = \<lparr>nrows = 1, ncols = 3, elems = [[- 2 / 2, - 2 / 2, 2]]\<rparr>,
         pc_colors = Some \<lparr>nrows = 1, ncols = 3,
           elems = [[np_uint8 255, np_uint8 0, np_uint8 0]]\<rparr>\<rparr>,
       Inr \<lparr>pc_points = \<lparr>nrows = 1, ncols = 3, elems = [[- 4 / 2, - 4 / 2, 4]]\<rparr>,
         pc_colors = Some \<lparr>nrows = 1, ncols = 3,
           elems = [[np_uint8 0, np_uint8 255, np_uint8 0]]\<rparr>\<rparr>]"
    by (simp add: two_pixels_def unproject_pixel)
  then have "map (elems \<circ> pc_points) pcs = [[[-1, -1, 2]], [[-2, -2, 4]]]"
    unfolding m by (auto simp: map_eq_Cons_conv)
  with sc m v e show ?thesis by auto
qed


lemma visualize_prediction_Inr:
  assumes "visualize_prediction k depth intr normals rotation translation image_in = Inr sc"
  shows "\<exists>K R2 t2 pc a c1 c2.
     camera_matrix (case intr of None \<Rightarrow> default_intrinsics | Some i \<Rightarrow> i)
       (nrows depth) (ncols depth) = Inr K \<and>
     (case (rotation, translation) of
        (Some r, Some t) \<Rightarrow> ebind (angleaxis_to_rotation_matrix r) (\<lambda>R2. Inr (R2, t))
      | _ \<Rightarrow> Inr (eye 3, zeros 3)) = Inr (R2, t2) \<and>
     k depth K (eye 3) (zeros 3) normals
       (map_option (map (map_nd (\<lambda>x. np_uint8 ((x + 0.5) * 255)))) image_in) = Inr pc \<and>
     create_pointcloud_actor (pc_points pc) (pc_colors pc) = Inr a \<and>
     create_camera_actor (eye 3) (zeros 3) = Inr c1 \<and>
     create_camera_actor R2 t2 = Inr c2 \<and>
     sc = \<lparr>scene_cloud = a, scene_cameras = [c1, c2]\<rparr>"
  using assms
  by (auto simp: visualize_prediction_def Let_def ebind_eq_Inr split: if_splits)

text \<open>C8: when the view of one prediction succeeds, its point cloud is the kernel's
  result under the identity rotation and the zero translation, and a call with any
  other rotation and translation that succeeds shows the same point cloud and the same
  first camera glyph: the supplied pose only reaches the second glyph.\<close>

theorem prediction_cloud_at_identity_pose:
  assumes "visualize_prediction k depth intr normals rotation translation image_in = Inr sc"
  shows "(\<exists>K pc.
       camera_matrix (case intr of None \<Rightarrow> default_intrinsics | Some i \<Rightarrow> i)
         (nrows depth) (ncols depth) = Inr K \<and>
       k depth K (eye 3) (zeros 3) normals
         (map_option (map (map_nd (\<lambda>x. np_uint8 ((x + 0.5) * 255)))) image_in) = Inr pc \<and>
       create_pointcloud_actor (pc_points pc) (pc_colors pc) = Inr (scene_cloud sc)) \<and>
     (\<forall>rotation' translation' sc'.
       visualize_prediction k depth intr normals rotation' translation' image_in = Inr sc' \<longrightarrow>
       scene_cloud sc' = scene_cloud sc \<and> scene_cameras sc' ! 0 = scene_cameras sc ! 0)"
proof (intro conjI allI impI)
  from visualize_prediction_Inr [OF assms] obtain K R2 t2 pc a c1 c2 where
    K: "camera_matrix (case intr of None \<Rightarrow> default_intrinsics | Some i \<Rightarrow> i)
       (nrows depth) (ncols depth) = Inr K" and
    pc: "k depth K (eye 3) (zeros 3) normals
       (map_option (map (map_nd (\<lambda>x. np_uint8 ((x + 0.5) * 255)))) image_in) = Inr pc" and
    a: "create_pointcloud_actor (pc_points pc) (pc_colors pc) = Inr a" and
    c1: "create_camera_actor (eye 3) (zeros 3) = Inr c1" and
    sc: "sc = \<lparr>scene_cloud = a, scene_cameras = [c1, c2]\<rparr>"
    by blast
  show "\<exists>K pc.
       camera_matrix (case intr of None \<Rightarrow> default_intrinsics | Some i \<Rightarrow> i)
         (nrows depth) (ncols depth) = Inr K \<and>
       k depth K (eye 3) (zeros 3) normals
         (map_option (map (map_nd (\<lambda>x. np_uint8 ((x + 0.5) * 255)))) image_in) = Inr pc \<and>
       create_pointcloud_actor (pc_points pc) (pc_colors pc) = Inr (scene_cloud sc)"
    using K pc a sc by auto
  fix rotation' translation' sc'
  assume "visualize_prediction k depth intr normals rotation' translation' image_in = Inr sc'"
  from visualize_prediction_Inr [OF this] obtain K' R2' t2' pc' a' c1' c2' where
    K': "camera_matrix (case intr of None \<Rightarrow> default_intrinsics | Some i \<Rightarrow> i)
       (nrows depth) (ncols depth) = Inr K'" and
    pc': "k depth K' (eye 3) (zeros 3) normals
       (map_option (map (map_nd (\<lambda>x. np_uint8 ((x + 0.5) * 255)))) image_in) = Inr pc'" and
    a': "create_pointcloud_actor (pc_points pc') (pc_colors pc') = Inr a'" and
    c1': "create_camera_actor (eye 3) (zeros 3) = Inr c1'" and
    sc': "sc' = \<lparr>scene_cloud = a', scene_cameras = [c1', c2']\<rparr>"
    by blast
  have "K' = K" using K K' by simp
  then have "pc' = pc" using pc pc' by simp
  then have "a' = a" using a a' by simp
  moreover have "c1' = c1" using c1 c1' by simp
  ultimately show "scene_cloud sc' = scene_cloud sc" "scene_cameras sc' ! 0 = scene_cameras sc ! 0"
    using sc sc' by simp_all
qed

text \<open>C9: when the view of one prediction succeeds, the scene has two camera glyphs;
  if the rotation or the translation is \<open>None\<close> the second glyph is the glyph of the
  identity pose, whatever the other argument is, and if both are given it is the glyph
  of the converted rotation and the translation.\<close>

theorem second_glyph_pose:
  assumes "visualize_prediction k depth intr normals rotation translation image_in = Inr sc"
  shows "length (scene_cameras sc) = 2 \<and>
     (rotation = None \<or> translation = None \<longrightarrow>
        create_camera_actor (eye 3) (zeros 3) = Inr (scene_cameras sc ! 1)) \<and>
     (\<forall>r t. rotation = Some r \<and> translation = Some t \<longrightarrow>
        (\<exists>R2. angleaxis_to_rotation_matrix r = Inr R2 \<and>
              create_camera_actor R2 t = Inr (scene_cameras sc ! 1)))"
proof -
  from visualize_prediction_Inr [OF assms] obtain R2 t2 c1 c2 a where
    p: "(case (rotation, translation) of
        (Some r, Some t) \<Rightarrow> ebind (angleaxis_to_rotation_matrix r) (\<lambda>R2. Inr (R2, t))
      | _ \<Rightarrow> Inr (eye 3, zeros 3)) = Inr (R2, t2)" and
    c2: "create_camera_actor R2 t2 = Inr c2" and
    sc: "sc = \<lparr>scene_cloud = a, scene_cameras = [c1, c2]\<rparr>"
    by blast
  show ?thesis
    using p c2 sc by (auto simp: ebind_eq_Inr split: option.splits)
qed


lemma upt_2: "[0..<2] = [0, 1]"
  by (simp add: upt_rec)

lemma flat_cloud:
  "unproject_spec flat_depth
     \<lparr>nrows = 3, ncols = 3, elems = [[2, 0, 1], [0, 2, 1], [0, 0, 1]]\<rparr> (eye 3) (zeros 3) None None =
   Inr \<lparr>pc_points = flat_points, pc_colors = None\<rparr>"
  by (simp add: unproject_spec_def flat_depth_def flat_points_def upt_2 upt_3 eye_3 zeros_3 Let_def)

lemma flat_actor:
  "create_pointcloud_actor flat_points None =
   Inr \<lparr>cloud_vertices = elems flat_points,
        cloud_colors = None, cloud_cells = [[0], [1], [2], [3]]\<rparr>"
  by (simp add: create_pointcloud_actor_def flat_points_def upt_4)

lemma flat_prediction:
  assumes "(case (rotation, translation) of
        (Some r, Some t) \<Rightarrow> ebind (angleaxis_to_rotation_matrix r) (\<lambda>R2. Inr (R2, t))
      | _ \<Rightarrow> Inr (eye 3, zeros 3)) = Inr (R2, t2)"
    and "create_camera_actor R2 t2 = Inr c2"
  shows "\<exists>c1. create_camera_actor (eye 3) (zeros 3) = Inr c1 \<and>
    visualize_prediction unproject_spec flat_depth (Some [1, 1, 1/2, 1/2]) None
      rotation translation None =
    Inr \<lparr>scene_cloud =
           \<lparr>cloud_vertices = elems flat_points,
            cloud_colors = None, cloud_cells = [[0], [1], [2], [3]]\<rparr>,
         scene_cameras = [c1, c2]\<rparr>"
proof -
  have K: "camera_matrix [1, 1, 1/2, 1/2] 2 2 =
      Inr \<lparr>nrows = 3, ncols = 3, elems = [[2, 0, 1], [0, 2, 1], [0, 0, 1]]\<rparr>"
    by (simp add: camera_matrix_4)
  have d: "nrows flat_depth = 2" "ncols flat_depth = 2" by (simp_all add: flat_depth_def)
  show ?thesis
    using assms unfolding visualize_prediction_def Let_def
    by (auto simp: d K flat_cloud flat_actor camera_actor_identity ebind_eq_Inr
        split: option.splits)
qed

lemma rotation_z1: "angleaxis_to_rotation_matrix [0, 0, 1] = Inr (rodrigues (cos 1) (sin 1) 0 0 1)"
  using angleaxis_large [of 0 0 1] by (simp add: sqrt_vdot_001)

lemma glyph_z1: "\<exists>c2. create_camera_actor (rodrigues (cos 1) (sin 1) 0 0 1) [1, 2, 3] = Inr c2"
  using camera_actor_vertices [of "rodrigues (cos 1) (sin 1) 0 0 1" "[1, 2, 3]"]
  by (auto simp: rodrigues_def)

text \<open>Witness for C8: the flat depth map, once with a pose and once without.\<close>

theorem prediction_cloud_at_identity_pose_witness:
  "\<exists>sc sc'.
     visualize_prediction unproject_spec flat_depth (Some [1, 1, 1/2, 1/2]) None
       (Some [0, 0, 1]) (Some [1, 2, 3]) None = Inr sc \<and>
     visualize_prediction unproject_spec flat_depth (Some [1, 1, 1/2, 1/2]) None
       None None None = Inr sc' \<and>
     scene_cloud sc' = scene_cloud sc \<and>
     cloud_vertices (scene_cloud sc) = elems flat_points"
proof -
  obtain c2 where c2: "create_camera_actor (rodrigues (cos 1) (sin 1) 0 0 1) [1, 2, 3] = Inr c2"
    using glyph_z1 by blast
  obtain sc where sc: "visualize_prediction unproject_spec flat_depth (Some [1, 1, 1/2, 1/2]) None
       (Some [0, 0, 1]) (Some [1, 2, 3]) None = Inr sc"
    and v: "cloud_vertices (scene_cloud sc) = elems flat_points"
    using flat_prediction [of "Some [0, 0, 1]" "Some [1, 2, 3]" "rodrigues (cos 1) (sin 1) 0 0 1"
        "[1, 2, 3]" c2] c2
    by (auto simp: rotation_z1)
  obtain sc' where sc': "visualize_prediction unproject_spec flat_depth (Some [1, 1, 1/2, 1/2]) None
       None None None = Inr sc'"
    using flat_prediction [of None None "eye 3" "zeros 3"] camera_actor_identity by auto
  from prediction_cloud_at_identity_pose [OF sc] sc'
  have "scene_cloud sc' = scene_cloud sc" by blast
  with sc sc' v show ?thesis by blast
qed

text \<open>Witness for C9: a rotation without a translation is ignored; a rotation with a
  translation places the second glyph.\<close>

theorem second_glyph_pose_witness:
  "\<exists>sc sc'.
     visualize_prediction unproject_spec flat_depth (Some [1, 1, 1/2, 1/2]) None
       (Some [0, 0, 1]) None None = Inr sc \<and>
     create_camera_actor (eye 3) (zeros 3) = Inr (scene_cameras sc ! 1) \<and>
     visualize_prediction unproject_spec flat_depth (Some [1, 1, 1/2, 1/2]) None
       (Some [0, 0, 1]) (Some [1, 2, 3]) None = Inr sc' \<and>
     (\<exists>R2. angleaxis_to_rotation_matrix [0, 0, 1] = Inr R2 \<and>
        create_camera_actor R2 [1, 2, 3] = Inr (scene_cameras sc' ! 1))"
proof -
  obtain c2 where c2: "create_camera_actor (rodrigues (cos 1) (sin 1) 0 0 1) [1, 2, 3] = Inr c2"
    using glyph_z1 by blast
  obtain sc' where sc': "visualize_prediction unproject_spec flat_depth (Some [1, 1, 1/2, 1/2]) None
       (Some [0, 0, 1]) (Some [1, 2, 3]) None = Inr sc'"
    using flat_prediction [of "Some [0, 0, 1]" "Some [1, 2, 3]" "rodrigues (cos 1) (sin 1) 0 0 1"
        "[1, 2, 3]" c2] c2
    by (auto simp: rotation_z1)
  obtain sc where sc: "visualize_prediction unproject_spec flat_depth (Some [1, 1, 1/2, 1/2]) None
       (Some [0, 0, 1]) None None = Inr sc"
    using flat_prediction [of "Some [0, 0, 1]" None "eye 3" "zeros 3"] camera_actor_identity by auto
  have "create_camera_actor (eye 3) (zeros 3) = Inr (scene_cameras sc ! 1)"
    using second_glyph_pose [OF sc] by simp
  moreover have "\<exists>R2. angleaxis_to_rotation_matrix [0, 0, 1] = Inr R2 \<and>
        create_camera_actor R2 [1, 2, 3] = Inr (scene_cameras sc' ! 1)"
    using second_glyph_pose [OF sc'] by simp
  ultimately show ?thesis using sc sc' by blast
qed


end
